theory Spec2Isabelle
  imports Complex_Main
begin

section \<open>Data model\<close>

text \<open>
  The module \<open>parser/ozon_parser.py\<close> holds two classes: \<open>OzonParser\<close>, the batch
  coordinator, and \<open>OzonWorker\<close>, which owns one browser session and fetches the
  articles of one group. Every collaborator that lives outside this module (the settings,
  the Selenium manager, the helper functions, the JSON decoder) is a parameter of the
  model. Logging is left out but for what a log line evaluates: a call that can raise is
  in the model.
\<close>

subsection \<open>Exceptions\<close>

text \<open>
  Python exceptions that are instances of \<open>Exception\<close>. A raise is the value \<open>Inl e\<close> of a
  sum type; \<open>str_of\<close> is Python's \<open>str(e)\<close>.
\<close>

datatype exn =
    ValueError string
  | RuntimeError string
  | AttributeError string
  | TypeError string
  | OverflowError string
  | JSONDecodeError string
  | OtherException string

fun str_of :: "exn \<Rightarrow> string" where
  "str_of (ValueError m) = m"
| "str_of (RuntimeError m) = m"
| "str_of (AttributeError m) = m"
| "str_of (TypeError m) = m"
| "str_of (OverflowError m) = m"
| "str_of (JSONDecodeError m) = m"
| "str_of (OtherException m) = m"

subsection \<open>Settings\<close>

text \<open>
  A Python float is a finite number, a NaN or an infinity (\<open>Infinity True\<close> the positive
  one).
\<close>

datatype pyfloat = Finite rat | NaN | Infinity bool

text \<open>
  The four tunables of \<open>config.settings\<close>: three Python ints and the delay between two
  attempts, a number of seconds (an int \<open>n\<close> is \<open>Finite (of_int n)\<close>).
\<close>

record settings =
  MAX_ARTICLES_PER_WORKER :: int
  MAX_WORKERS :: int
  MAX_RETRIES :: int
  RETRY_DELAY :: pyfloat

text \<open>
  \<open>time.sleep(d)\<close> returns nothing; it raises for a negative number, a NaN and an
  infinity. \<open>None\<close>: the call returns.
\<close>

fun py_sleep :: "pyfloat \<Rightarrow> exn option" where
  "py_sleep (Finite d) =
     (if d < 0 then Some (ValueError ''sleep length must be non-negative'') else None)"
| "py_sleep NaN = Some (ValueError ''Invalid value NaN (not a number)'')"
| "py_sleep (Infinity positive) = Some (OverflowError ''timestamp too large to convert to C PyTime_t'')"

subsection \<open>Result records\<close>

text \<open>
  Modelled from the spec: the classes \<open>PriceInfo\<close> and \<open>ArticleResult\<close> of
  \<open>models.schemas\<close> are not part of the sources. \<open>PriceInfo\<close> carries its numeric price
  fields (the parameter \<open>'p\<close>) and an optional title; \<open>ArticleResult\<close> carries the
  identifier, the success flag and two optional fields, \<open>price_info\<close> and \<open>error\<close>, that are
  absent (\<open>None\<close>) unless the constructor call names them.
\<close>

record 'p PriceInfo =
  prices :: 'p
  title :: "string option"

record 'p ArticleResult =
  article :: int
  success :: bool
  price_info :: "'p PriceInfo option"
  error :: "string option"

text \<open>\<open>ArticleResult(article=a, success=True, price_info=p)\<close>\<close>

definition ArticleResult_success :: "int \<Rightarrow> 'p PriceInfo \<Rightarrow> 'p ArticleResult" where
  "ArticleResult_success a p =
     \<lparr>article = a, success = True, price_info = Some p, error = None\<rparr>"

text \<open>\<open>ArticleResult(article=a, success=False, error=msg)\<close>\<close>

definition ArticleResult_failure :: "int \<Rightarrow> string \<Rightarrow> 'p ArticleResult" where
  "ArticleResult_failure a msg =
     \<lparr>article = a, success = False, price_info = None, error = Some msg\<rparr>"

subsection \<open>Decoded JSON\<close>

text \<open>
  The values \<open>json.loads\<close> returns. A dict is an association list in which the first
  binding of a key is the one that counts.
\<close>

datatype json =
    JNull
  | JBool bool
  | JInt int
  | JFloat pyfloat
  | JStr string
  | JArr "json list"
  | JObj "(string \<times> json) list"

text \<open>Python's truth value of a decoded JSON value: what \<open>if not x\<close> tests.\<close>

fun truthy :: "json \<Rightarrow> bool" where
  "truthy JNull = False"
| "truthy (JBool b) = b"
| "truthy (JInt n) = (n \<noteq> 0)"
| "truthy (JFloat f) = (f \<noteq> Finite 0)"
| "truthy (JStr s) = (s \<noteq> [])"
| "truthy (JArr xs) = (xs \<noteq> [])"
| "truthy (JObj kvs) = (kvs \<noteq> [])"

text \<open>
  \<open>len(x)\<close>: a string, a list and a dict have a length; on \<open>None\<close>, a bool or a number
  the call raises \<open>TypeError\<close>.
\<close>

fun py_len :: "json \<Rightarrow> exn + nat" where
  "py_len (JStr s) = Inr (length s)"
| "py_len (JArr xs) = Inr (length xs)"
| "py_len (JObj kvs) = Inr (length kvs)"
| "py_len _ = Inl (TypeError ''object has no len()'')"

text \<open>
  \<open>data.get(key, default)\<close>: only a dict has the method; on any other decoded value the
  attribute lookup raises \<open>AttributeError\<close>.
\<close>

fun dict_get :: "json \<Rightarrow> string \<Rightarrow> json \<Rightarrow> exn + json" where
  "dict_get (JObj kvs) key dflt =
     (case map_of kvs key of Some v \<Rightarrow> Inr v | None \<Rightarrow> Inr dflt)"
| "dict_get _ key dflt = Inl (AttributeError ''object has no attribute get'')"

subsection \<open>Collaborators\<close>

text \<open>
  The functions imported from \<open>utils.helpers\<close>, and \<open>json.loads\<close>. None of them is in the
  sources, so each is a parameter; each may raise.
\<close>

record 'p helpers =
  build_ozon_api_url :: "int \<Rightarrow> exn + string"
  is_valid_json_response :: "string \<Rightarrow> exn + bool"
  json_loads :: "string \<Rightarrow> exn + json"
  find_web_price_property :: "json \<Rightarrow> exn + json"
  parse_price_data :: "json \<Rightarrow> exn + 'p PriceInfo option"
  find_product_title :: "json \<Rightarrow> exn + string option"

text \<open>
  The methods of \<open>SeleniumManager\<close> the worker calls, over the state \<open>'w\<close> of one manager
  (its browser session and whatever the remote site will answer to it). Each takes the
  state and returns the new one. \<open>driver_debug\<close> stands for the three attribute reads
  \<open>current_url\<close>, \<open>title\<close> and \<open>page_source\<close> on the driver \<open>'d\<close>; they talk to the
  browser and may raise.
\<close>

record ('w, 'd) selenium =
  setup_driver :: "'w \<Rightarrow> (exn + 'd option) \<times> 'w"
  navigate_to_url :: "string \<Rightarrow> 'w \<Rightarrow> (exn + bool) \<times> 'w"
  driver_debug :: "'d \<Rightarrow> 'w \<Rightarrow> exn option \<times> 'w"
  debug_page_content :: "'w \<Rightarrow> exn option \<times> 'w"
  wait_for_json_response :: "'w \<Rightarrow> (exn + string option) \<times> 'w"
  manager_close :: "'w \<Rightarrow> exn option \<times> 'w"

text \<open>The attributes of an \<open>OzonWorker\<close>; \<open>driver\<close> is \<open>None\<close> until \<open>initialize\<close> sets it.\<close>

record ('w, 'd) OzonWorker =
  selenium_manager :: 'w
  driver :: "'d option"

section \<open>OzonWorker\<close>

text \<open>
  A method takes \<open>self\<close> and returns its result with the new \<open>self\<close>.
  \<open>OzonWorker()\<close> on a fresh manager state:
\<close>

definition OzonWorker_new :: "'w \<Rightarrow> ('w, 'd) OzonWorker" where
  "OzonWorker_new m = \<lparr>selenium_manager = m, driver = None\<rparr>"

definition OzonWorker_initialize ::
  "('w, 'd) selenium \<Rightarrow> ('w, 'd) OzonWorker \<Rightarrow> (exn + unit) \<times> ('w, 'd) OzonWorker" where
  "OzonWorker_initialize ops self =
     (case setup_driver ops (selenium_manager self) of
        (Inl e, m) \<Rightarrow> (Inl e, self\<lparr>selenium_manager := m\<rparr>)
      | (Inr d, m) \<Rightarrow> (Inr (), self\<lparr>selenium_manager := m, driver := d\<rparr>))"

definition OzonWorker_close ::
  "('w, 'd) selenium \<Rightarrow> ('w, 'd) OzonWorker \<Rightarrow> exn option \<times> ('w, 'd) OzonWorker" where
  "OzonWorker_close ops self =
     (case manager_close ops (selenium_manager self) of
        (r, m) \<Rightarrow> (r, self\<lparr>selenium_manager := m\<rparr>))"

subsection \<open>extract_price_info\<close>

text \<open>
  The body of the \<open>try\<close>: \<open>Inl e\<close> is an exception that reaches one of the two \<open>except\<close>
  clauses. The log line \<open>Found {len(widget_states)} widget states\<close> evaluates
  \<open>len(widget_states)\<close>, which can raise.
\<close>

definition extract_price_info_try :: "'p helpers \<Rightarrow> string \<Rightarrow> exn + 'p PriceInfo option" where
  "extract_price_info_try h json_content =
     (case is_valid_json_response h json_content of
        Inl e \<Rightarrow> Inl e
      | Inr valid \<Rightarrow>
          if \<not> valid then Inr None
          else
            (case json_loads h json_content of
               Inl e \<Rightarrow> Inl e
             | Inr data \<Rightarrow>
                 (case dict_get data ''widgetStates'' (JObj []) of
                    Inl e \<Rightarrow> Inl e
                  | Inr widget_states \<Rightarrow>
                      if \<not> truthy widget_states then Inr None
                      else
                        (case py_len widget_states of
                           Inl e \<Rightarrow> Inl e
                         | Inr found \<Rightarrow>
                             (case find_web_price_property h widget_states of
                                Inl e \<Rightarrow> Inl e
                              | Inr web_price_value \<Rightarrow>
                                  if \<not> truthy web_price_value then Inr None
                                  else
                                    (case parse_price_data h web_price_value of
                                       Inl e \<Rightarrow> Inl e
                                     | Inr None \<Rightarrow> Inr None
                                     | Inr (Some info) \<Rightarrow>
                                         (case find_product_title h widget_states of
                                            Inl e \<Rightarrow> Inl e
                                          | Inr None \<Rightarrow> Inr (Some info)
                                          | Inr (Some t) \<Rightarrow>
                                              if t = [] then Inr (Some info)
                                              else Inr (Some (info\<lparr>title := Some t\<rparr>)))))))))"

text \<open>Both \<open>except\<close> clauses return \<open>None\<close>. Nothing reads or assigns an attribute of \<open>self\<close>.\<close>

definition extract_price_info ::
  "'p helpers \<Rightarrow> ('w, 'd) OzonWorker \<Rightarrow> string \<Rightarrow> 'p PriceInfo option \<times> ('w, 'd) OzonWorker" where
  "extract_price_info h self json_content =
     (case extract_price_info_try h json_content of
        Inl e \<Rightarrow> (None, self)
      | Inr r \<Rightarrow> (r, self))"

subsection \<open>parse_single_article\<close>

text \<open>
  What the fetch and the extraction of one attempt come to: a price, one of the three
  failure tests, or an exception.
\<close>

datatype 'p fetched =
    Extracted "'p PriceInfo"
  | NavigationFailed
  | NoResponse
  | ExtractionFailed
  | Raised exn

definition fetch_and_extract ::
  "('w, 'd) selenium \<Rightarrow> 'p helpers \<Rightarrow> ('w, 'd) OzonWorker \<Rightarrow> int \<Rightarrow>
   'p fetched \<times> ('w, 'd) OzonWorker" where
  "fetch_and_extract ops h self a =
     (case build_ozon_api_url h a of
        Inl e \<Rightarrow> (Raised e, self)
      | Inr url \<Rightarrow>
          (case navigate_to_url ops url (selenium_manager self) of
             (Inl e, m1) \<Rightarrow> (Raised e, self\<lparr>selenium_manager := m1\<rparr>)
           | (Inr navigation_success, m1) \<Rightarrow>
               if \<not> navigation_success then
                 (case driver self of
                    None \<Rightarrow> (NavigationFailed, self\<lparr>selenium_manager := m1\<rparr>)
                  | Some d \<Rightarrow>
                      (case driver_debug ops d m1 of
                         (Some e, m2) \<Rightarrow> (Raised e, self\<lparr>selenium_manager := m2\<rparr>)
                       | (None, m2) \<Rightarrow> (NavigationFailed, self\<lparr>selenium_manager := m2\<rparr>)))
               else
                 (case debug_page_content ops m1 of
                    (Some e, m2) \<Rightarrow> (Raised e, self\<lparr>selenium_manager := m2\<rparr>)
                  | (None, m2) \<Rightarrow>
                      (case wait_for_json_response ops m2 of
                         (Inl e, m3) \<Rightarrow> (Raised e, self\<lparr>selenium_manager := m3\<rparr>)
                       | (Inr None, m3) \<Rightarrow> (NoResponse, self\<lparr>selenium_manager := m3\<rparr>)
                       | (Inr (Some page_source), m3) \<Rightarrow>
                           if page_source = [] then (NoResponse, self\<lparr>selenium_manager := m3\<rparr>)
                           else
                             (case extract_price_info h (self\<lparr>selenium_manager := m3\<rparr>) page_source of
                                (Some info, self') \<Rightarrow> (Extracted info, self')
                              | (None, self') \<Rightarrow> (ExtractionFailed, self'))))))"

text \<open>
  How the \<open>try\<close> block of one attempt goes on after the outcome is known, without an
  exception: it returns a result or goes on to the next attempt (\<open>continue\<close>).
\<close>

datatype 'p step = Return "'p ArticleResult" | Continue

text \<open>
  The test every failure branch and the \<open>except\<close> clause repeat:
  \<open>if attempt < settings.MAX_RETRIES - 1: time.sleep(settings.RETRY_DELAY); continue\<close>
  \<open>else: return ArticleResult(...)\<close>. \<open>Inl e\<close>: the sleep raised \<open>e\<close>.
\<close>

definition retry_or_return :: "settings \<Rightarrow> int \<Rightarrow> 'p ArticleResult \<Rightarrow> exn + 'p step" where
  "retry_or_return s attempt r =
     (if attempt < MAX_RETRIES s - 1 then
        (case py_sleep (RETRY_DELAY s) of
           Some e \<Rightarrow> Inl e
         | None \<Rightarrow> Inr Continue)
      else Inr (Return r))"

text \<open>The \<open>try\<close> block of one attempt; \<open>Inl e\<close> is an exception for the \<open>except\<close> clause.\<close>

definition attempt_try ::
  "settings \<Rightarrow> ('w, 'd) selenium \<Rightarrow> 'p helpers \<Rightarrow> ('w, 'd) OzonWorker \<Rightarrow> int \<Rightarrow> int \<Rightarrow>
   (exn + 'p step) \<times> ('w, 'd) OzonWorker" where
  "attempt_try s ops h self a attempt =
     (case fetch_and_extract ops h self a of
        (Extracted info, self') \<Rightarrow> (Inr (Return (ArticleResult_success a info)), self')
      | (NavigationFailed, self') \<Rightarrow>
          (retry_or_return s attempt (ArticleResult_failure a ''Failed to navigate to URL''), self')
      | (NoResponse, self') \<Rightarrow>
          (retry_or_return s attempt (ArticleResult_failure a ''No JSON response received''), self')
      | (ExtractionFailed, self') \<Rightarrow>
          (retry_or_return s attempt (ArticleResult_failure a ''Failed to extract price info''), self')
      | (Raised e, self') \<Rightarrow> (Inl e, self'))"

text \<open>
  One iteration of the \<open>for\<close> loop: the \<open>try\<close> block, and the \<open>except Exception as e\<close>
  clause for what it raises. An exception raised inside the clause (by its
  \<open>time.sleep\<close>) is not caught: \<open>Inl e\<close> leaves \<open>parse_single_article\<close>.
\<close>

definition attempt_body ::
  "settings \<Rightarrow> ('w, 'd) selenium \<Rightarrow> 'p helpers \<Rightarrow> ('w, 'd) OzonWorker \<Rightarrow> int \<Rightarrow> int \<Rightarrow>
   (exn + 'p step) \<times> ('w, 'd) OzonWorker" where
  "attempt_body s ops h self a attempt =
     (case attempt_try s ops h self a attempt of
        (Inr st, self') \<Rightarrow> (Inr st, self')
      | (Inl e, self') \<Rightarrow>
          (retry_or_return s attempt (ArticleResult_failure a (str_of e)), self'))"

text \<open>\<open>range(n)\<close>\<close>

definition py_range :: "int \<Rightarrow> int list" where
  "py_range n = map int [0 ..< nat n]"

text \<open>
  The \<open>for\<close> loop over the attempts that are left. \<open>Inr (Some r)\<close>: a \<open>return r\<close> inside
  the loop; \<open>Inr None\<close>: the loop ran out of attempts; \<open>Inl e\<close>: an exception left the loop.
\<close>

fun retry_loop ::
  "settings \<Rightarrow> ('w, 'd) selenium \<Rightarrow> 'p helpers \<Rightarrow> int \<Rightarrow> int list \<Rightarrow> ('w, 'd) OzonWorker \<Rightarrow>
   (exn + 'p ArticleResult option) \<times> ('w, 'd) OzonWorker" where
  "retry_loop s ops h a [] self = (Inr None, self)"
| "retry_loop s ops h a (attempt # rest) self =
     (case attempt_body s ops h self a attempt of
        (Inl e, self') \<Rightarrow> (Inl e, self')
      | (Inr (Return r), self') \<Rightarrow> (Inr (Some r), self')
      | (Inr Continue, self') \<Rightarrow> retry_loop s ops h a rest self')"

definition parse_single_article ::
  "settings \<Rightarrow> ('w, 'd) selenium \<Rightarrow> 'p helpers \<Rightarrow> ('w, 'd) OzonWorker \<Rightarrow> int \<Rightarrow>
   (exn + 'p ArticleResult) \<times> ('w, 'd) OzonWorker" where
  "parse_single_article s ops h self a =
     (case retry_loop s ops h a (py_range (MAX_RETRIES s)) self of
        (Inl e, self') \<Rightarrow> (Inl e, self')
      | (Inr (Some r), self') \<Rightarrow> (Inr r, self')
      | (Inr None, self') \<Rightarrow> (Inr (ArticleResult_failure a ''Max retries exceeded''), self'))"

subsection \<open>parse_articles of the worker\<close>

text \<open>
  \<open>for article in articles: results.append(self.parse_single_article(article))\<close>; an
  exception of \<open>parse_single_article\<close> ends the loop.
\<close>

fun parse_each ::
  "settings \<Rightarrow> ('w, 'd) selenium \<Rightarrow> 'p helpers \<Rightarrow> int list \<Rightarrow> 'p ArticleResult list \<Rightarrow>
   ('w, 'd) OzonWorker \<Rightarrow> (exn + 'p ArticleResult list) \<times> ('w, 'd) OzonWorker" where
  "parse_each s ops h [] results self = (Inr results, self)"
| "parse_each s ops h (a # rest) results self =
     (case parse_single_article s ops h self a of
        (Inl e, self') \<Rightarrow> (Inl e, self')
      | (Inr r, self') \<Rightarrow> parse_each s ops h rest (results @ [r]) self')"

definition OzonWorker_parse_articles ::
  "settings \<Rightarrow> ('w, 'd) selenium \<Rightarrow> 'p helpers \<Rightarrow> ('w, 'd) OzonWorker \<Rightarrow> int list \<Rightarrow>
   (exn + 'p ArticleResult list) \<times> ('w, 'd) OzonWorker" where
  "OzonWorker_parse_articles s ops h self articles =
     (if driver self = None then (Inl (RuntimeError ''Worker not initialized''), self)
      else parse_each s ops h articles [] self)"

section \<open>OzonParser\<close>

subsection \<open>Distribution of the articles\<close>

text \<open>\<open>range(0, stop, step)\<close>; a zero step raises \<open>ValueError\<close>.\<close>

definition py_range_step :: "int \<Rightarrow> int \<Rightarrow> exn + int list" where
  "py_range_step stop step =
     (if step = 0 then Inl (ValueError ''range() arg 3 must not be zero'')
      else if 0 < step then
        Inr (map (\<lambda>k. int k * step) [0 ..< nat ((stop + step - 1) div step)])
      else
        Inr (map (\<lambda>k. int k * step) [0 ..< nat ((stop + step + 1) div step)]))"

text \<open>The slice \<open>xs[i:j]\<close>, with Python's clamping and its negative indices.\<close>

definition py_index :: "nat \<Rightarrow> int \<Rightarrow> nat" where
  "py_index n i = (if i < 0 then nat (max (i + int n) 0) else min (nat i) n)"

definition py_slice :: "'a list \<Rightarrow> int \<Rightarrow> int \<Rightarrow> 'a list" where
  "py_slice xs i j =
     (let lo = py_index (length xs) i; hi = py_index (length xs) j
      in take (hi - lo) (drop lo xs))"

text \<open>The \<open>for\<close> loop of \<open>_distribute_articles\<close> over the start indices that are left.\<close>

fun distribute_loop :: "settings \<Rightarrow> int list \<Rightarrow> int list \<Rightarrow> int list list \<Rightarrow> int list list" where
  "distribute_loop s articles [] groups = groups"
| "distribute_loop s articles (i # rest) groups =
     (let group = py_slice articles i (i + MAX_ARTICLES_PER_WORKER s);
          groups' = groups @ [group]
      in if MAX_WORKERS s \<le> int (length groups') then groups'
         else distribute_loop s articles rest groups')"

definition distribute_articles :: "settings \<Rightarrow> int list \<Rightarrow> exn + int list list" where
  "distribute_articles s articles =
     (let total = int (length articles)
      in if total \<le> MAX_ARTICLES_PER_WORKER s then Inr [articles]
         else
           (case py_range_step total (MAX_ARTICLES_PER_WORKER s) of
              Inl e \<Rightarrow> Inl e
            | Inr starts \<Rightarrow> Inr (distribute_loop s articles starts [])))"

subsection \<open>One worker for one group\<close>

text \<open>
  \<open>finally: worker.close()\<close>: the close runs on every path; when it raises, its exception
  replaces the outcome of the \<open>try\<close>.
\<close>

definition finally_close ::
  "('w, 'd) selenium \<Rightarrow> ('w, 'd) OzonWorker \<Rightarrow> exn + 'r \<Rightarrow> exn + 'r" where
  "finally_close ops self outcome =
     (case OzonWorker_close ops self of
        (Some e, _) \<Rightarrow> Inl e
      | (None, _) \<Rightarrow> outcome)"

text \<open>
  \<open>_parse_worker_group\<close>, on the state \<open>m\<close> of the manager that \<open>OzonWorker()\<close> creates.
\<close>

definition parse_worker_group ::
  "settings \<Rightarrow> ('w, 'd) selenium \<Rightarrow> 'p helpers \<Rightarrow> 'w \<Rightarrow> int list \<Rightarrow>
   exn + 'p ArticleResult list" where
  "parse_worker_group s ops h m articles =
     (case OzonWorker_initialize ops (OzonWorker_new m) of
        (Inl e, worker) \<Rightarrow> finally_close ops worker (Inl e)
      | (Inr _, worker) \<Rightarrow>
          (case OzonWorker_parse_articles s ops h worker articles of
             (outcome, worker') \<Rightarrow> finally_close ops worker' outcome))"

text \<open>\<open>_parse_with_single_worker\<close> has the same body.\<close>

definition parse_with_single_worker ::
  "settings \<Rightarrow> ('w, 'd) selenium \<Rightarrow> 'p helpers \<Rightarrow> 'w \<Rightarrow> int list \<Rightarrow>
   exn + 'p ArticleResult list" where
  "parse_with_single_worker s ops h m articles =
     (case OzonWorker_initialize ops (OzonWorker_new m) of
        (Inl e, worker) \<Rightarrow> finally_close ops worker (Inl e)
      | (Inr _, worker) \<Rightarrow>
          (case OzonWorker_parse_articles s ops h worker articles of
             (outcome, worker') \<Rightarrow> finally_close ops worker' outcome))"

subsection \<open>Merging the partial results\<close>

text \<open>
  \<open>result_dict = {result.article: result for result in results}\<close>: a later result
  replaces an earlier one under the same key.
\<close>

definition result_dict :: "'p ArticleResult list \<Rightarrow> int \<rightharpoonup> 'p ArticleResult" where
  "result_dict results = fold (\<lambda>result d. d(article result \<mapsto> result)) results Map.empty"

text \<open>\<open>[result_dict[article] for article in original_articles if article in result_dict]\<close>\<close>

definition sort_results_by_original_order ::
  "'p ArticleResult list \<Rightarrow> int list \<Rightarrow> 'p ArticleResult list" where
  "sort_results_by_original_order results original_articles =
     map (\<lambda>a. the (result_dict results a))
       (filter (\<lambda>a. result_dict results a \<noteq> None) original_articles)"

text \<open>
  The loop over \<open>as_completed(futures)\<close>: \<open>future.result()\<close> returns the worker's list
  or raises the worker's exception again, which ends the loop.
\<close>

fun collect_results ::
  "(exn + 'p ArticleResult list) list \<Rightarrow> 'p ArticleResult list \<Rightarrow> exn + 'p ArticleResult list" where
  "collect_results [] all_results = Inr all_results"
| "collect_results (Inl e # futures) all_results = Inl e"
| "collect_results (Inr worker_results # futures) all_results =
     collect_results futures (all_results @ worker_results)"

text \<open>
  The order in which the \<open>n\<close> futures complete is not determined by the program:
  \<open>as_completed\<close> yields every future once, in some order.
\<close>

definition completion_order :: "nat \<Rightarrow> nat list \<Rightarrow> bool" where
  "completion_order n order = (distinct order \<and> set order = {0 ..< n})"

text \<open>
  \<open>_parse_with_multiple_workers\<close>. Future number \<open>i\<close> is the run of a worker on group
  number \<open>i\<close>, on its own manager, whose fresh state is \<open>env i\<close>; \<open>order\<close> lists the futures
  in their order of completion. \<open>ThreadPoolExecutor(max_workers=0)\<close> raises \<open>ValueError\<close>.
\<close>

definition parse_with_multiple_workers ::
  "settings \<Rightarrow> ('w, 'd) selenium \<Rightarrow> 'p helpers \<Rightarrow> (nat \<Rightarrow> 'w) \<Rightarrow> nat list \<Rightarrow>
   int list list \<Rightarrow> int list \<Rightarrow> exn + 'p ArticleResult list" where
  "parse_with_multiple_workers s ops h env order worker_groups original_articles =
     (if length worker_groups = 0 then Inl (ValueError ''max_workers must be greater than 0'')
      else
        (let future = (\<lambda>i. parse_worker_group s ops h (env i) (worker_groups ! i))
         in case collect_results (map future order) [] of
              Inl e \<Rightarrow> Inl e
            | Inr all_results \<Rightarrow>
                Inr (sort_results_by_original_order all_results original_articles)))"

subsection \<open>parse_articles of the parser\<close>

text \<open>A single group is parsed inline, on the whole list \<open>articles\<close>.\<close>

definition OzonParser_parse_articles ::
  "settings \<Rightarrow> ('w, 'd) selenium \<Rightarrow> 'p helpers \<Rightarrow> (nat \<Rightarrow> 'w) \<Rightarrow> nat list \<Rightarrow> int list \<Rightarrow>
   exn + 'p ArticleResult list" where
  "OzonParser_parse_articles s ops h env order articles =
     (case distribute_articles s articles of
        Inl e \<Rightarrow> Inl e
      | Inr worker_groups \<Rightarrow>
          if length worker_groups = 1 then parse_with_single_worker s ops h (env 0) articles
          else parse_with_multiple_workers s ops h env order worker_groups articles)"

section \<open>Notions the properties are stated with\<close>

text \<open>
  The invariant of an \<open>ArticleResult\<close>: \<open>success\<close> decides which of \<open>price_info\<close> and
  \<open>error\<close> is there.
\<close>

definition populated_by_success :: "'p ArticleResult \<Rightarrow> bool" where
  "populated_by_success r =
     (if success r then price_info r \<noteq> None \<and> error r = None
      else error r \<noteq> None \<and> price_info r = None)"



definition counted :: "('w, 'd) OzonWorker \<Rightarrow> nat \<Rightarrow> ('w \<times> nat, 'd) OzonWorker" where
  "counted self c = \<lparr>selenium_manager = (selenium_manager self, c), driver = driver self\<rparr>"

section \<open>A concrete configuration\<close>

text \<open>
  Collaborators to run the model on. The state of a manager is a number: in state \<open>0\<close>
  the browser cannot be started; a navigation in state \<open>1\<close> fails; every other navigation
  succeeds; each navigation moves on to the next state. The page always shows the text
  \<open>payload\<close>.
\<close>

definition sample_ops :: "(nat, unit) selenium" where
  "sample_ops =
     \<lparr>setup_driver =
        (\<lambda>m. if m = 0 then (Inl (OtherException ''cannot start browser''), m)
             else (Inr (Some ()), m)),
      navigate_to_url = (\<lambda>url m. (Inr (m \<noteq> 1), Suc m)),
      driver_debug = (\<lambda>d m. (None, m)),
      debug_page_content = (\<lambda>m. (None, m)),
      wait_for_json_response = (\<lambda>m. (Inr (Some ''payload''), m)),
      manager_close = (\<lambda>m. (None, m))\<rparr>"

text \<open>
  The helpers know six page texts: \<open>payload\<close> (a price and a title), \<open>untitled\<close> (a
  price, no title), \<open>no widgets\<close>, \<open>no price\<close>, \<open>bad price\<close> (a price entry that is not
  a number) and \<open>counted widgets\<close> (a number where the widget states should be). The
  empty text is not a valid response; any other text does not decode.
\<close>

definition sample_page :: "string \<Rightarrow> json option" where
  "sample_page t =
     (if t = ''payload'' then
        Some (JObj [(''widgetStates'',
                JObj [(''webPrice'', JStr ''999''), (''webProductHeading'', JStr ''Widget'')])])
      else if t = ''untitled'' then
        Some (JObj [(''widgetStates'', JObj [(''webPrice'', JStr ''999'')])])
      else if t = ''no widgets'' then Some (JObj [(''layout'', JArr [])])
      else if t = ''no price'' then
        Some (JObj [(''widgetStates'', JObj [(''webProductHeading'', JStr ''Widget'')])])
      else if t = ''bad price'' then
        Some (JObj [(''widgetStates'', JObj [(''webPrice'', JStr ''soon'')])])
      else if t = ''counted widgets'' then Some (JObj [(''widgetStates'', JInt 3)])
      else None)"

definition sample_helpers :: "int helpers" where
  "sample_helpers =
     \<lparr>build_ozon_api_url = (\<lambda>a. Inr ''url''),
      is_valid_json_response = (\<lambda>t. Inr (t \<noteq> [])),
      json_loads =
        (\<lambda>t. case sample_page t of
               Some data \<Rightarrow> Inr data
             | None \<Rightarrow> Inl (JSONDecodeError ''Expecting value'')),
      find_web_price_property = (\<lambda>ws. dict_get ws ''webPrice'' JNull),
      parse_price_data =
        (\<lambda>v. if v = JStr ''999'' then Inr (Some \<lparr>prices = 999, title = None\<rparr>) else Inr None),
      find_product_title =
        (\<lambda>ws. case dict_get ws ''webProductHeading'' JNull of
                Inr (JStr t) \<Rightarrow> Inr (Some t)
              | _ \<Rightarrow> Inr None)\<rparr>"

text \<open>Helpers whose validity test rejects every page: no fetch ever yields a price.\<close>

definition rejecting_helpers :: "int helpers" where
  "rejecting_helpers = sample_helpers\<lparr>is_valid_json_response := (\<lambda>t. Inr False)\<rparr>"

text \<open>Settings with a delay of two seconds, and the same with a delay of \<open>-1\<close>.\<close>

definition sample_settings :: "int \<Rightarrow> int \<Rightarrow> int \<Rightarrow> settings" where
  "sample_settings cap workers retries =
     \<lparr>MAX_ARTICLES_PER_WORKER = cap, MAX_WORKERS = workers, MAX_RETRIES = retries,
      RETRY_DELAY = Finite 2\<rparr>"


text \<open>A worker after a successful \<open>initialize\<close>.\<close>

definition ready_worker :: "(nat, unit) OzonWorker" where
  "ready_worker = \<lparr>selenium_manager = 5, driver = Some ()\<rparr>"

text \<open>
  Fresh manager states for the workers of a batch: all able to fetch; the first group's
  browser unable to start; every worker's first navigation failing.
\<close>

definition all_ready :: "nat \<Rightarrow> nat" where
  "all_ready i = 5"

definition first_cannot_start :: "nat \<Rightarrow> nat" where
  "first_cannot_start i = (if i = 0 then 0 else 5)"

definition slow_first :: "nat \<Rightarrow> nat" where
  "slow_first i = 1"

section \<open>The worker: one article\<close>

lemma worker_same_driver:
  fixes self self' :: "('w, 'd) OzonWorker"
  assumes "driver self' = driver self"
  shows "self' = self\<lparr>selenium_manager := selenium_manager self'\<rparr>"
  using assms by (cases self, cases self') simp

lemma fetch_and_extract_driver: "driver (snd (fetch_and_extract ops h self a)) = driver self"
  unfolding fetch_and_extract_def
  by (auto simp: extract_price_info_def split: sum.splits prod.splits option.splits)

lemma attempt_try_snd:
  "snd (attempt_try s ops h self a k) = snd (fetch_and_extract ops h self a)"
  by (cases "fetch_and_extract ops h self a")
     (simp add: attempt_try_def split: fetched.splits)

lemma attempt_body_snd:
  "snd (attempt_body s ops h self a k) = snd (fetch_and_extract ops h self a)"
  using attempt_try_snd[of s ops h self a k]
  by (cases "attempt_try s ops h self a k")
     (simp add: attempt_body_def split: sum.splits)

lemma attempt_body_driver: "driver (snd (attempt_body s ops h self a k)) = driver self"
  by (simp add: attempt_body_snd fetch_and_extract_driver)

lemma attempt_body_self:
  "\<exists>m. snd (attempt_body s ops h self a k) = self\<lparr>selenium_manager := m\<rparr>"
  using worker_same_driver[OF attempt_body_driver] by blast

lemma attempt_body_Return:
  assumes "attempt_body s ops h self a k = (Inr (Return r), self')"
  shows "(\<exists>p. r = ArticleResult_success a p \<and> fst (fetch_and_extract ops h self a) = Extracted p)
       \<or> (\<exists>msg. r = ArticleResult_failure a msg
              \<and> (\<forall>p. fst (fetch_and_extract ops h self a) \<noteq> Extracted p))"
  using assms
  by (cases "fetch_and_extract ops h self a")
     (auto simp: attempt_body_def attempt_try_def retry_or_return_def
           split: fetched.splits if_splits option.splits)



lemma retry_loop_Some:
  assumes "retry_loop s ops h a ks self = (Inr (Some r), self')"
  shows "(\<exists>p m. r = ArticleResult_success a p
              \<and> fst (fetch_and_extract ops h (self\<lparr>selenium_manager := m\<rparr>) a) = Extracted p)
       \<or> (\<exists>msg. r = ArticleResult_failure a msg)"
  using assms
proof (induction ks arbitrary: self)
  case Nil
  then show ?case by simp
next
  case (Cons k ks)
  obtain out self1 where b: "attempt_body s ops h self a k = (out, self1)"
    by (cases "attempt_body s ops h self a k")
  obtain m1 where m1: "self1 = self\<lparr>selenium_manager := m1\<rparr>"
    using attempt_body_self[of s ops h self a k] b by auto
  have same: "self = self\<lparr>selenium_manager := selenium_manager self\<rparr>" by simp
  show ?case
  proof (cases out)
    case (Inl e)
    with b Cons.prems show ?thesis by simp
  next
    case (Inr st)
    show ?thesis
    proof (cases st)
      case (Return r')
      with b Inr Cons.prems have "r' = r" by simp
      with attempt_body_Return[of s ops h self a k r self1] b Inr Return same show ?thesis
        by metis
    next
      case Continue
      with b Inr Cons.prems have "retry_loop s ops h a ks self1 = (Inr (Some r), self')" by simp
      from Cons.IH[OF this] m1 show ?thesis by auto
    qed
  qed
qed








lemma parse_single_article_shape:
  assumes "fst (parse_single_article s ops h self a) = Inr r"
  shows "(\<exists>p m. r = ArticleResult_success a p
          \<and> fst (fetch_and_extract ops h (self\<lparr>selenium_manager := m\<rparr>) a) = Extracted p)
   \<or> (\<exists>msg. r = ArticleResult_failure a msg)"
proof (cases "retry_loop s ops h a (py_range (MAX_RETRIES s)) self")
  case (Pair out self')
  show ?thesis
  proof (cases out)
    case (Inl e)
    with Pair assms show ?thesis by (simp add: parse_single_article_def)
  next
    case (Inr ro)
    show ?thesis
    proof (cases ro)
      case None
      with Pair Inr assms have "r = ArticleResult_failure a ''Max retries exceeded''"
        by (simp add: parse_single_article_def)
      then show ?thesis by blast
    next
      case (Some r')
      with Pair Inr assms have "r' = r" by (simp add: parse_single_article_def)
      with Pair Inr Some retry_loop_Some[of s ops h a "py_range (MAX_RETRIES s)" self r self']
      show ?thesis by simp
    qed
  qed
qed

lemma parse_single_article_article:
  "fst (parse_single_article s ops h self a) = Inr r \<Longrightarrow> article r = a"
  using parse_single_article_shape[of s ops h self a r]
  by (auto simp: ArticleResult_success_def ArticleResult_failure_def)

lemma parse_single_article_populated:
  "fst (parse_single_article s ops h self a) = Inr r \<Longrightarrow> populated_by_success r"
  using parse_single_article_shape[of s ops h self a r]
  by (auto simp: populated_by_success_def ArticleResult_success_def ArticleResult_failure_def)





lemma counted_update [simp]:
  "(counted self c)\<lparr>selenium_manager := (m, c')\<rparr> = counted (self\<lparr>selenium_manager := m\<rparr>) c'"
  by (simp add: counted_def)

lemma counted_fields [simp]:
  "selenium_manager (counted self c) = (selenium_manager self, c)"
  "driver (counted self c) = driver self"
  by (simp_all add: counted_def)






subsection \<open>The retry bound\<close>




subsection \<open>The fallback after the loop\<close>




section \<open>The worker: extraction\<close>

lemma extract_invalid:
  "is_valid_json_response h t = Inr False \<Longrightarrow> fst (extract_price_info h self t) = None"
  by (simp add: extract_price_info_def extract_price_info_try_def)

lemma extract_undecodable:
  "json_loads h t = Inl e \<Longrightarrow> fst (extract_price_info h self t) = None"
  by (simp add: extract_price_info_def extract_price_info_try_def split: sum.splits)

lemma extract_no_widget_states:
  "json_loads h t = Inr data \<Longrightarrow>
   (\<forall>ws. dict_get data ''widgetStates'' (JObj []) = Inr ws \<longrightarrow>
      \<not> truthy ws \<or> (\<exists>e. py_len ws = Inl e)) \<Longrightarrow>
   fst (extract_price_info h self t) = None"
  by (auto simp: extract_price_info_def extract_price_info_try_def split: sum.splits)

lemma extract_no_web_price:
  "json_loads h t = Inr data \<Longrightarrow> dict_get data ''widgetStates'' (JObj []) = Inr ws \<Longrightarrow>
   find_web_price_property h ws = Inr v \<Longrightarrow> \<not> truthy v \<Longrightarrow>
   fst (extract_price_info h self t) = None"
  by (simp add: extract_price_info_def extract_price_info_try_def split: sum.splits)

lemma extract_no_number:
  "json_loads h t = Inr data \<Longrightarrow> dict_get data ''widgetStates'' (JObj []) = Inr ws \<Longrightarrow>
   find_web_price_property h ws = Inr v \<Longrightarrow> parse_price_data h v = Inr None \<Longrightarrow>
   fst (extract_price_info h self t) = None"
  by (simp add: extract_price_info_def extract_price_info_try_def split: sum.splits)

lemma extract_Some:
  "fst (extract_price_info h self t) = Some p \<Longrightarrow>
   \<exists>data ws n v p0. is_valid_json_response h t = Inr True \<and> json_loads h t = Inr data \<and>
      dict_get data ''widgetStates'' (JObj []) = Inr ws \<and> truthy ws \<and> py_len ws = Inr n \<and>
      find_web_price_property h ws = Inr v \<and> truthy v \<and>
      parse_price_data h v = Inr (Some p0) \<and> prices p = prices p0"
  by (auto simp: extract_price_info_def extract_price_info_try_def
      split: sum.splits option.splits if_splits)

lemma extract_untitled:
  "is_valid_json_response h t = Inr True \<Longrightarrow> json_loads h t = Inr data \<Longrightarrow>
   dict_get data ''widgetStates'' (JObj []) = Inr ws \<Longrightarrow> truthy ws \<Longrightarrow>
   py_len ws = Inr n \<Longrightarrow>
   find_web_price_property h ws = Inr v \<Longrightarrow> truthy v \<Longrightarrow>
   parse_price_data h v = Inr (Some p0) \<Longrightarrow>
   find_product_title h ws = Inr None \<or> find_product_title h ws = Inr (Some []) \<Longrightarrow>
   fst (extract_price_info h self t) = Some p0"
  by (auto simp: extract_price_info_def extract_price_info_try_def)

text \<open>
  Claim C7. \<open>extract_price_info\<close> returns \<open>None\<close> when the validity test rejects the
  text, when the text does not decode, when the decoded value has no non-empty
  \<open>widgetStates\<close> collection (the key is missing, its value is empty or false, or its value
  has no length), when the search for the price entry finds nothing, and when the price
  entry does not parse into a \<open>PriceInfo\<close>. A \<open>PriceInfo\<close> comes back only after every one
  of these steps has passed, with the price fields \<open>parse_price_data\<close> gave; and when all
  of them pass, a title search that finds nothing leaves that \<open>PriceInfo\<close> as the result.
\<close>

theorem extract_price_info_outcomes:
  "(is_valid_json_response h t = Inr False \<longrightarrow> fst (extract_price_info h self t) = None)
   \<and> (\<forall>e. json_loads h t = Inl e \<longrightarrow> fst (extract_price_info h self t) = None)
   \<and> (\<forall>data. json_loads h t = Inr data \<and>
          (\<forall>ws. dict_get data ''widgetStates'' (JObj []) = Inr ws \<longrightarrow>
             \<not> truthy ws \<or> (\<exists>e. py_len ws = Inl e)) \<longrightarrow>
          fst (extract_price_info h self t) = None)
   \<and> (\<forall>data ws v. json_loads h t = Inr data \<and>
          dict_get data ''widgetStates'' (JObj []) = Inr ws \<and>
          find_web_price_property h ws = Inr v \<and> \<not> truthy v \<longrightarrow>
          fst (extract_price_info h self t) = None)
   \<and> (\<forall>data ws v. json_loads h t = Inr data \<and>
          dict_get data ''widgetStates'' (JObj []) = Inr ws \<and>
          find_web_price_property h ws = Inr v \<and> parse_price_data h v = Inr None \<longrightarrow>
          fst (extract_price_info h self t) = None)
   \<and> (\<forall>p. fst (extract_price_info h self t) = Some p \<longrightarrow>
          (\<exists>data ws n v p0. is_valid_json_response h t = Inr True \<and> json_loads h t = Inr data \<and>
             dict_get data ''widgetStates'' (JObj []) = Inr ws \<and> truthy ws \<and>
             py_len ws = Inr n \<and>
             find_web_price_property h ws = Inr v \<and> truthy v \<and>
             parse_price_data h v = Inr (Some p0) \<and> prices p = prices p0))
   \<and> (\<forall>data ws n v p0. is_valid_json_response h t = Inr True \<and> json_loads h t = Inr data \<and>
          dict_get data ''widgetStates'' (JObj []) = Inr ws \<and> truthy ws \<and>
          py_len ws = Inr n \<and>
          find_web_price_property h ws = Inr v \<and> truthy v \<and>
          parse_price_data h v = Inr (Some p0) \<and>
          (find_product_title h ws = Inr None \<or> find_product_title h ws = Inr (Some [])) \<longrightarrow>
          fst (extract_price_info h self t) = Some p0)"
proof (intro conjI allI impI)
  show "fst (extract_price_info h self t) = None" if "is_valid_json_response h t = Inr False"
    using that by (rule extract_invalid)
  show "fst (extract_price_info h self t) = None" if "json_loads h t = Inl e" for e
    using that by (rule extract_undecodable)
  show "fst (extract_price_info h self t) = None"
    if "json_loads h t = Inr data \<and>
        (\<forall>ws. dict_get data ''widgetStates'' (JObj []) = Inr ws \<longrightarrow>
           \<not> truthy ws \<or> (\<exists>e. py_len ws = Inl e))" for data
    using that extract_no_widget_states[of h t data self] by blast
  show "fst (extract_price_info h self t) = None"
    if "json_loads h t = Inr data \<and> dict_get data ''widgetStates'' (JObj []) = Inr ws \<and>
        find_web_price_property h ws = Inr v \<and> \<not> truthy v" for data ws v
    using that extract_no_web_price[of h t data ws v self] by blast
  show "fst (extract_price_info h self t) = None"
    if "json_loads h t = Inr data \<and> dict_get data ''widgetStates'' (JObj []) = Inr ws \<and>
        find_web_price_property h ws = Inr v \<and> parse_price_data h v = Inr None" for data ws v
    using that extract_no_number[of h t data ws v self] by blast
  show "\<exists>data ws n v p0. is_valid_json_response h t = Inr True \<and> json_loads h t = Inr data \<and>
             dict_get data ''widgetStates'' (JObj []) = Inr ws \<and> truthy ws \<and>
             py_len ws = Inr n \<and>
             find_web_price_property h ws = Inr v \<and> truthy v \<and>
             parse_price_data h v = Inr (Some p0) \<and> prices p = prices p0"
    if "fst (extract_price_info h self t) = Some p" for p
    using that by (rule extract_Some)
  show "fst (extract_price_info h self t) = Some p0"
    if "is_valid_json_response h t = Inr True \<and> json_loads h t = Inr data \<and>
          dict_get data ''widgetStates'' (JObj []) = Inr ws \<and> truthy ws \<and>
          py_len ws = Inr n \<and>
          find_web_price_property h ws = Inr v \<and> truthy v \<and>
          parse_price_data h v = Inr (Some p0) \<and>
          (find_product_title h ws = Inr None \<or> find_product_title h ws = Inr (Some []))"
    for data ws n v p0
    using that extract_untitled[of h t data ws n v p0 self] by blast
qed

theorem extract_price_info_outcomes_witness:
  "fst (extract_price_info sample_helpers ready_worker []) = None
   \<and> fst (extract_price_info sample_helpers ready_worker ''<html>'') = None
   \<and> fst (extract_price_info sample_helpers ready_worker ''no widgets'') = None
   \<and> fst (extract_price_info sample_helpers ready_worker ''counted widgets'') = None
   \<and> fst (extract_price_info sample_helpers ready_worker ''no price'') = None
   \<and> fst (extract_price_info sample_helpers ready_worker ''bad price'') = None
   \<and> fst (extract_price_info sample_helpers ready_worker ''untitled'')
       = Some \<lparr>prices = 999, title = None\<rparr>
   \<and> fst (extract_price_info sample_helpers ready_worker ''payload'')
       = Some \<lparr>prices = 999, title = Some ''Widget''\<rparr>
   \<and> (\<exists>v. parse_price_data sample_helpers v = Inr (Some \<lparr>prices = 999, title = None\<rparr>))"
proof -
  let ?priced = "JObj [(''webPrice'', JStr ''999'')]"
  have invalid: "is_valid_json_response sample_helpers [] = Inr False"
    by (simp add: sample_helpers_def)
  have c1: "fst (extract_price_info sample_helpers ready_worker []) = None"
    using extract_price_info_outcomes[of sample_helpers "[]" ready_worker] invalid by blast
  have "json_loads sample_helpers ''<html>'' = Inl (JSONDecodeError ''Expecting value'')"
    by (simp add: sample_helpers_def sample_page_def)
  then have c2: "fst (extract_price_info sample_helpers ready_worker ''<html>'') = None"
    using extract_price_info_outcomes[of sample_helpers "''<html>''" ready_worker] by blast
  have "json_loads sample_helpers ''no widgets'' = Inr (JObj [(''layout'', JArr [])])"
    and "\<forall>ws. dict_get (JObj [(''layout'', JArr [])]) ''widgetStates'' (JObj []) = Inr ws
          \<longrightarrow> \<not> truthy ws \<or> (\<exists>e. py_len ws = Inl e)"
    by (auto simp: sample_helpers_def sample_page_def)
  then have c3: "fst (extract_price_info sample_helpers ready_worker ''no widgets'') = None"
    using extract_price_info_outcomes[of sample_helpers "''no widgets''" ready_worker] by blast
  have "json_loads sample_helpers ''counted widgets'' = Inr (JObj [(''widgetStates'', JInt 3)])"
    and "\<forall>ws. dict_get (JObj [(''widgetStates'', JInt 3)]) ''widgetStates'' (JObj []) = Inr ws
          \<longrightarrow> \<not> truthy ws \<or> (\<exists>e. py_len ws = Inl e)"
    by (auto simp: sample_helpers_def sample_page_def)
  then have c3': "fst (extract_price_info sample_helpers ready_worker ''counted widgets'') = None"
    using extract_price_info_outcomes[of sample_helpers "''counted widgets''" ready_worker]
    by blast
  have "json_loads sample_helpers ''no price''
          = Inr (JObj [(''widgetStates'', JObj [(''webProductHeading'', JStr ''Widget'')])])"
    and "dict_get (JObj [(''widgetStates'', JObj [(''webProductHeading'', JStr ''Widget'')])])
           ''widgetStates'' (JObj []) = Inr (JObj [(''webProductHeading'', JStr ''Widget'')])"
    and "find_web_price_property sample_helpers (JObj [(''webProductHeading'', JStr ''Widget'')])
           = Inr JNull"
    and "\<not> truthy JNull"
    by (simp_all add: sample_helpers_def sample_page_def)
  then have c4: "fst (extract_price_info sample_helpers ready_worker ''no price'') = None"
    using extract_price_info_outcomes[of sample_helpers "''no price''" ready_worker] by blast
  have "json_loads sample_helpers ''bad price''
          = Inr (JObj [(''widgetStates'', JObj [(''webPrice'', JStr ''soon'')])])"
    and "dict_get (JObj [(''widgetStates'', JObj [(''webPrice'', JStr ''soon'')])])
           ''widgetStates'' (JObj []) = Inr (JObj [(''webPrice'', JStr ''soon'')])"
    and "find_web_price_property sample_helpers (JObj [(''webPrice'', JStr ''soon'')])
           = Inr (JStr ''soon'')"
    and "parse_price_data sample_helpers (JStr ''soon'') = Inr None"
    by (simp_all add: sample_helpers_def sample_page_def)
  then have c5: "fst (extract_price_info sample_helpers ready_worker ''bad price'') = None"
    using extract_price_info_outcomes[of sample_helpers "''bad price''" ready_worker] by blast
  have "is_valid_json_response sample_helpers ''untitled'' = Inr True"
    and "json_loads sample_helpers ''untitled'' = Inr (JObj [(''widgetStates'', ?priced)])"
    and "dict_get (JObj [(''widgetStates'', ?priced)]) ''widgetStates'' (JObj []) = Inr ?priced"
    and "truthy ?priced"
    and "py_len ?priced = Inr 1"
    and "find_web_price_property sample_helpers ?priced = Inr (JStr ''999'')"
    and "truthy (JStr ''999'')"
    and "parse_price_data sample_helpers (JStr ''999'')
           = Inr (Some \<lparr>prices = 999, title = None\<rparr>)"
    and "find_product_title sample_helpers ?priced = Inr None"
    by (simp_all add: sample_helpers_def sample_page_def)
  then have c6: "fst (extract_price_info sample_helpers ready_worker ''untitled'')
       = Some \<lparr>prices = 999, title = None\<rparr>"
    using extract_price_info_outcomes[of sample_helpers "''untitled''" ready_worker] by blast
  have c7: "fst (extract_price_info sample_helpers ready_worker ''payload'')
       = Some \<lparr>prices = 999, title = Some ''Widget''\<rparr>"
    by (simp add: extract_price_info_def extract_price_info_try_def sample_helpers_def
        sample_page_def)
  then obtain v p0 where "parse_price_data sample_helpers v = Inr (Some p0)"
    and "prices \<lparr>prices = 999::int, title = Some ''Widget''\<rparr> = prices p0"
    using extract_price_info_outcomes[of sample_helpers "''payload''" ready_worker] by blast
  then have c8: "\<exists>v. parse_price_data sample_helpers v
       = Inr (Some \<lparr>prices = 999, title = None\<rparr>)"
    by (auto simp: sample_helpers_def split: if_splits)
  from c1 c2 c3 c3' c4 c5 c6 c7 c8 show ?thesis by blast
qed

section \<open>The worker: a group of articles\<close>

lemma parse_each_articles:
  assumes "fst (parse_each s ops h as acc self) = Inr rs"
  shows "map article rs = map article acc @ as"
  using assms
proof (induction as arbitrary: acc self)
  case Nil
  then show ?case by simp
next
  case (Cons a as)
  obtain out self1 where p: "parse_single_article s ops h self a = (out, self1)"
    by (cases "parse_single_article s ops h self a")
  show ?case
  proof (cases out)
    case (Inl e)
    with p Cons.prems show ?thesis by simp
  next
    case (Inr r)
    with p have "article r = a"
      using parse_single_article_article[of s ops h self a r] by simp
    moreover from p Inr Cons.prems
    have "fst (parse_each s ops h as (acc @ [r]) self1) = Inr rs" by simp
    from Cons.IH[OF this] have "map article rs = map article (acc @ [r]) @ as" .
    ultimately show ?thesis by simp
  qed
qed

lemma parse_each_all:
  assumes "\<And>self a r. fst (parse_single_article s ops h self a) = Inr r \<Longrightarrow> P r"
    and "\<forall>r\<in>set acc. P r"
    and "fst (parse_each s ops h as acc self) = Inr rs"
  shows "\<forall>r\<in>set rs. P r"
  using assms(2,3)
proof (induction as arbitrary: acc self)
  case Nil
  then show ?case by simp
next
  case (Cons a as)
  obtain out self1 where p: "parse_single_article s ops h self a = (out, self1)"
    by (cases "parse_single_article s ops h self a")
  show ?case
  proof (cases out)
    case (Inl e)
    with p Cons.prems show ?thesis by simp
  next
    case (Inr r)
    with p have "P r" using assms(1)[of self a r] by simp
    with Cons.prems have all: "\<forall>x\<in>set (acc @ [r]). P x" by simp
    from p Inr Cons.prems
    have "fst (parse_each s ops h as (acc @ [r]) self1) = Inr rs" by simp
    from Cons.IH[OF all this] show ?thesis .
  qed
qed



lemma OzonWorker_parse_articles_Inr:
  assumes "OzonWorker_parse_articles s ops h self as = (Inr rs, self')"
  shows "map article rs = as"
proof -
  have "fst (parse_each s ops h as [] self) = Inr rs"
    using assms by (auto simp: OzonWorker_parse_articles_def split: if_splits)
  from parse_each_articles[OF this] show ?thesis by simp
qed

lemma OzonWorker_parse_articles_all:
  assumes "\<And>self a r. fst (parse_single_article s ops h self a) = Inr r \<Longrightarrow> P r"
    and "OzonWorker_parse_articles s ops h self as = (Inr rs, self')"
  shows "\<forall>r\<in>set rs. P r"
proof -
  have "fst (parse_each s ops h as [] self) = Inr rs"
    using assms(2) by (auto simp: OzonWorker_parse_articles_def split: if_splits)
  from parse_each_all[of s ops h P "[]", OF assms(1) _ this] show ?thesis by simp
qed



lemma finally_close_Inr: "finally_close ops self outcome = Inr rs \<Longrightarrow> outcome = Inr rs"
  by (auto simp: finally_close_def split: prod.splits option.splits)

lemma parse_with_single_worker_eq:
  "parse_with_single_worker s ops h m as = parse_worker_group s ops h m as"
  by (simp add: parse_with_single_worker_def parse_worker_group_def)

lemma parse_worker_group_Inr:
  assumes "parse_worker_group s ops h m as = Inr rs"
  shows "map article rs = as"
proof (cases "OzonWorker_initialize ops (OzonWorker_new m)")
  case (Pair i worker)
  show ?thesis
  proof (cases i)
    case (Inl e)
    with Pair assms finally_close_Inr[of ops worker "Inl e" rs] show ?thesis
      by (simp add: parse_worker_group_def)
  next
    case (Inr u)
    obtain outcome worker' where o: "OzonWorker_parse_articles s ops h worker as = (outcome, worker')"
      by (cases "OzonWorker_parse_articles s ops h worker as")
    with Pair Inr assms have "finally_close ops worker' outcome = Inr rs"
      by (simp add: parse_worker_group_def)
    then have "outcome = Inr rs" by (rule finally_close_Inr)
    with o show ?thesis using OzonWorker_parse_articles_Inr by blast
  qed
qed

lemma parse_worker_group_all:
  assumes "\<And>self a r. fst (parse_single_article s ops h self a) = Inr r \<Longrightarrow> P r"
    and "parse_worker_group s ops h m as = Inr rs"
  shows "\<forall>r\<in>set rs. P r"
proof (cases "OzonWorker_initialize ops (OzonWorker_new m)")
  case (Pair i worker)
  show ?thesis
  proof (cases i)
    case (Inl e)
    with Pair assms(2) finally_close_Inr[of ops worker "Inl e" rs] show ?thesis
      by (simp add: parse_worker_group_def)
  next
    case (Inr u)
    obtain outcome worker' where o: "OzonWorker_parse_articles s ops h worker as = (outcome, worker')"
      by (cases "OzonWorker_parse_articles s ops h worker as")
    with Pair Inr assms(2) have "finally_close ops worker' outcome = Inr rs"
      by (simp add: parse_worker_group_def)
    then have "outcome = Inr rs" by (rule finally_close_Inr)
    with o OzonWorker_parse_articles_all[of s ops h P worker as rs worker'] assms(1)
    show ?thesis by blast
  qed
qed

lemma parse_worker_group_init_fails:
  assumes "setup_driver ops m = (Inl e, m')"
  shows "parse_worker_group s ops h m as
       = (case fst (manager_close ops m') of Some e2 \<Rightarrow> Inl e2 | None \<Rightarrow> Inl e)"
  using assms
  by (simp add: parse_worker_group_def OzonWorker_initialize_def OzonWorker_new_def
      finally_close_def OzonWorker_close_def split: prod.splits option.splits)

lemma parse_worker_group_init_raises:
  assumes "setup_driver ops m = (Inl e, m')"
  shows "\<exists>e'. parse_worker_group s ops h m as = Inl e'"
  unfolding parse_worker_group_init_fails[OF assms]
  by (simp split: option.splits)

subsection \<open>The merge\<close>

lemma fold_dict_Some:
  assumes "fold (\<lambda>result d. d(article result \<mapsto> result)) rs d0 a = Some r"
  shows "d0 a = Some r \<or> (r \<in> set rs \<and> article r = a)"
  using assms
proof (induction rs arbitrary: d0)
  case Nil
  then show ?case by simp
next
  case (Cons x rs)
  from Cons.IH[of "d0(article x \<mapsto> x)"] Cons.prems
  show ?case by (auto split: if_splits)
qed

lemma fold_dict_dom:
  "dom (fold (\<lambda>result d. d(article result \<mapsto> result)) rs d0) = dom d0 \<union> article ` set rs"
  by (induction rs arbitrary: d0) auto

lemma result_dict_Some:
  "result_dict rs a = Some r \<Longrightarrow> r \<in> set rs \<and> article r = a"
  using fold_dict_Some[of rs Map.empty a r] by (simp add: result_dict_def)

lemma result_dict_dom: "(result_dict rs a \<noteq> None) = (a \<in> article ` set rs)"
  using fold_dict_dom[of rs Map.empty] by (auto simp: result_dict_def dom_def)

lemma result_dict_dom_ex: "(\<exists>r. result_dict rs a = Some r) = (a \<in> article ` set rs)"
  using result_dict_dom[of rs a] by auto

lemma sort_results_articles:
  "map article (sort_results_by_original_order rs original)
     = filter (\<lambda>a. a \<in> article ` set rs) original"
proof -
  have "article (the (result_dict rs a)) = a" if "result_dict rs a \<noteq> None" for a
    using that result_dict_Some[of rs a] by auto
  then have "map article (sort_results_by_original_order rs original)
     = filter (\<lambda>a. result_dict rs a \<noteq> None) original"
    unfolding sort_results_by_original_order_def
    by (induction original) auto
  then show ?thesis by (simp add: result_dict_dom_ex)
qed

lemma sort_results_subset:
  "set (sort_results_by_original_order rs original) \<subseteq> set rs"
  unfolding sort_results_by_original_order_def
  using result_dict_Some[of rs] by auto

lemma sort_results_functional:
  assumes "r1 \<in> set (sort_results_by_original_order rs original)"
    and "r2 \<in> set (sort_results_by_original_order rs original)"
    and "article r1 = article r2"
  shows "r1 = r2"
proof -
  have "\<exists>a. result_dict rs a = Some r" if "r \<in> set (sort_results_by_original_order rs original)" for r
    using that unfolding sort_results_by_original_order_def by auto
  then obtain a1 a2 where a: "result_dict rs a1 = Some r1" "result_dict rs a2 = Some r2"
    using assms(1,2) by blast
  then have "article r1 = a1" "article r2 = a2"
    using result_dict_Some by blast+
  with a assms(3) show ?thesis by simp
qed

lemma collect_results_Inr:
  assumes "collect_results fs acc = Inr all"
  shows "(\<forall>f\<in>set fs. \<exists>rs. f = Inr rs) \<and> set all = set acc \<union> (\<Union>f\<in>set fs. set (projr f))"
  using assms
proof (induction fs acc rule: collect_results.induct)
  case (1 acc)
  then show ?case by simp
next
  case (2 e fs acc)
  then show ?case by simp
next
  case (3 rs fs acc)
  then show ?case by auto
qed

lemma collect_results_Inl:
  assumes "Inl e \<in> set fs"
  shows "\<exists>e'. collect_results fs acc = Inl e'"
  using assms
  by (induction fs acc rule: collect_results.induct) auto


lemma collect_results_first_Inl:
  assumes "collect_results fs acc = Inl e"
  shows "\<exists>k<length fs. fs ! k = Inl e \<and> (\<forall>j<k. \<exists>rs. fs ! j = Inr rs)"
  using assms
proof (induction fs acc rule: collect_results.induct)
  case (1 acc)
  then show ?case by simp
next
  case (2 e' fs acc)
  then have "(Inl e' # fs) ! 0 = Inl e" by simp
  then show ?case by (intro exI[of _ 0]) simp
next
  case (3 rs fs acc)
  then obtain k where k: "k < length fs" "fs ! k = Inl e" "\<forall>j<k. \<exists>rs. fs ! j = Inr rs"
    by auto
  have "\<forall>j<Suc k. \<exists>rs'. (Inr rs # fs) ! j = Inr rs'"
  proof (intro allI impI)
    fix j assume "j < Suc k"
    then show "\<exists>rs'. (Inr rs # fs) ! j = Inr rs'"
      using k(3) by (cases j) simp_all
  qed
  with k(1,2) show ?case by (intro exI[of _ "Suc k"]) simp
qed

section \<open>The parser: distribution\<close>

lemma py_slice_chunk:
  assumes "1 \<le> cap"
  shows "py_slice xs (int k * cap) (int k * cap + cap) = take (nat cap) (drop (k * nat cap) xs)"
proof -
  have lo: "nat (int k * cap) = k * nat cap"
    using assms by (simp add: nat_mult_distrib)
  have hi: "nat (int k * cap + cap) = k * nat cap + nat cap"
    using assms by (simp add: nat_add_distrib nat_mult_distrib)
  have "0 \<le> int k * cap"
    using assms by (intro mult_nonneg_nonneg) simp_all
  then have nonneg: "\<not> int k * cap < 0" "\<not> int k * cap + cap < 0"
    using assms by linarith+
  show ?thesis
  proof (cases "k * nat cap \<le> length xs")
    case True
    then show ?thesis
      using nonneg by (simp add: py_slice_def py_index_def lo hi min_def Let_def)
  next
    case False
    then show ?thesis
      using nonneg by (simp add: py_slice_def py_index_def lo hi min_def Let_def)
  qed
qed

lemma distribute_loop_chunks:
  assumes "1 \<le> MAX_ARTICLES_PER_WORKER s" and "length groups = j" and "j \<le> n"
  shows "distribute_loop s xs (map (\<lambda>k. int k * MAX_ARTICLES_PER_WORKER s) [j ..< n]) groups
       = groups @ map (\<lambda>k. take (nat (MAX_ARTICLES_PER_WORKER s))
                              (drop (k * nat (MAX_ARTICLES_PER_WORKER s)) xs))
                    [j ..< min n (max (Suc j) (nat (MAX_WORKERS s)))]"
  using assms(2,3)
proof (induction "n - j" arbitrary: j groups)
  case 0
  then show ?case by simp
next
  case (Suc d)
  then have jn: "j < n" by simp
  let ?c = "MAX_ARTICLES_PER_WORKER s"
  let ?chunk = "\<lambda>k. take (nat ?c) (drop (k * nat ?c) xs)"
  have up: "[j ..< n] = j # [Suc j ..< n]" using jn by (simp add: upt_conv_Cons)
  have sl: "py_slice xs (int j * ?c) (int j * ?c + ?c) = ?chunk j"
    by (rule py_slice_chunk[OF assms(1)])
  show ?case
  proof (cases "MAX_WORKERS s \<le> int (Suc j)")
    case True
    then have "nat (MAX_WORKERS s) \<le> Suc j" by simp
    then have m: "min n (max (Suc j) (nat (MAX_WORKERS s))) = Suc j" using jn by simp
    have "[j ..< Suc j] = [j]" by simp
    with True Suc.prems sl up m show ?thesis by (simp add: Let_def)
  next
    case False
    then have w: "Suc (Suc j) \<le> nat (MAX_WORKERS s)" by simp
    have len: "length (groups @ [?chunk j]) = Suc j" using Suc.prems by simp
    have d: "d = n - Suc j" using Suc.hyps(2) by simp
    have le: "Suc j \<le> n" using jn by simp
    from Suc.hyps(1)[OF d len le]
    have ih: "distribute_loop s xs (map (\<lambda>k. int k * ?c) [Suc j ..< n]) (groups @ [?chunk j])
       = (groups @ [?chunk j]) @ map ?chunk [Suc j ..< min n (max (Suc (Suc j)) (nat (MAX_WORKERS s)))]" .
    have mx: "max (Suc (Suc j)) (nat (MAX_WORKERS s)) = max (Suc j) (nat (MAX_WORKERS s))"
      using w by simp
    have "j < min n (max (Suc j) (nat (MAX_WORKERS s)))" using jn by simp
    then have up2: "[j ..< min n (max (Suc j) (nat (MAX_WORKERS s)))]
        = j # [Suc j ..< min n (max (Suc j) (nat (MAX_WORKERS s)))]"
      by (simp add: upt_conv_Cons)
    from False Suc.prems sl up ih mx up2 show ?thesis by (simp add: Let_def)
  qed
qed

lemma distribute_articles_chunks:
  assumes "1 \<le> MAX_ARTICLES_PER_WORKER s"
    and "MAX_ARTICLES_PER_WORKER s < int (length xs)"
  shows "distribute_articles s xs
       = Inr (map (\<lambda>k. take (nat (MAX_ARTICLES_PER_WORKER s))
                              (drop (k * nat (MAX_ARTICLES_PER_WORKER s)) xs))
                [0 ..< min (nat ((int (length xs) + MAX_ARTICLES_PER_WORKER s - 1)
                                   div MAX_ARTICLES_PER_WORKER s))
                           (max 1 (nat (MAX_WORKERS s)))])"
proof -
  let ?c = "MAX_ARTICLES_PER_WORKER s"
  let ?n = "nat ((int (length xs) + ?c - 1) div ?c)"
  have r: "py_range_step (int (length xs)) ?c = Inr (map (\<lambda>k. int k * ?c) [0 ..< ?n])"
    using assms(1) by (simp add: py_range_step_def)
  have "distribute_loop s xs (map (\<lambda>k. int k * ?c) [0 ..< ?n]) []
       = [] @ map (\<lambda>k. take (nat ?c) (drop (k * nat ?c) xs))
                    [0 ..< min ?n (max (Suc 0) (nat (MAX_WORKERS s)))]"
    by (rule distribute_loop_chunks[OF assms(1)]) simp_all
  with r assms(2) show ?thesis by (simp add: distribute_articles_def Let_def)
qed

lemma concat_chunks: "concat (map (\<lambda>k. take c (drop (k * c) xs)) [0 ..< m]) = take (m * c) xs"
proof (induction m)
  case 0
  then show ?case by simp
next
  case (Suc m)
  have "take (m * c) xs @ take c (drop (m * c) xs) = take (m * c + c) xs"
    by (simp add: take_add)
  with Suc show ?case by (simp add: add.commute)
qed

lemma ceil_div_ge2:
  assumes "1 \<le> (c::int)" and "c < t"
  shows "2 \<le> nat ((t + c - 1) div c)"
proof -
  have "2 * c \<le> t + c - 1" using assms by simp
  then have "(2 * c) div c \<le> (t + c - 1) div c"
    using assms(1) by (intro zdiv_mono1) simp_all
  moreover have "(2 * c) div c = 2" using assms(1) by simp
  ultimately show ?thesis by simp
qed

lemma ceil_div_covers:
  assumes "1 \<le> (c::int)" and "0 \<le> t"
  shows "t \<le> ((t + c - 1) div c) * c"
proof -
  have "(t + c - 1) = ((t + c - 1) div c) * c + (t + c - 1) mod c" by simp
  moreover have "(t + c - 1) mod c < c" using assms(1) by simp
  ultimately show ?thesis by linarith
qed

section \<open>The parser: the batch\<close>

lemma take_min_chunks:
  assumes "length xs \<le> n * c"
  shows "take (min n m * c) xs = take (m * c) xs"
proof (cases "m \<le> n")
  case True
  then show ?thesis by (simp add: min_def)
next
  case False
  then have "n * c \<le> m * c" by simp
  with assms have "length xs \<le> m * c" by linarith
  with assms False show ?thesis by (simp add: min_def)
qed

lemma multiple_workers_collected:
  assumes "parse_with_multiple_workers s ops h env order groups original = Inr out"
  shows "\<exists>all. collect_results
            (map (\<lambda>i. parse_worker_group s ops h (env i) (groups ! i)) order) [] = Inr all
         \<and> out = sort_results_by_original_order all original"
  using assms
  by (auto simp: parse_with_multiple_workers_def Let_def split: if_splits sum.splits)

lemma multiple_workers_order:
  assumes "parse_with_multiple_workers s ops h env order groups original = Inr out"
  shows "map article out = filter (\<lambda>a. a \<in> article ` set out) original"
proof -
  obtain all where out: "out = sort_results_by_original_order all original"
    using multiple_workers_collected[OF assms] by blast
  have m: "map article out = filter (\<lambda>a. a \<in> article ` set all) original"
    unfolding out by (rule sort_results_articles)
  have "article ` set out = set (map article out)" by simp
  also have "\<dots> = {a \<in> set original. a \<in> article ` set all}" unfolding m by simp
  finally have "article ` set out = {a \<in> set original. a \<in> article ` set all}" .
  then have "filter (\<lambda>a. a \<in> article ` set out) original
           = filter (\<lambda>a. a \<in> article ` set all) original"
    by (intro filter_cong) auto
  with m show ?thesis by simp
qed

lemma multiple_workers_scheduled:
  assumes "completion_order (length groups) order"
    and "parse_with_multiple_workers s ops h env order groups original = Inr out"
  shows "map article out = filter (\<lambda>a. a \<in> set (concat groups)) original"
proof -
  let ?future = "\<lambda>i. parse_worker_group s ops h (env i) (groups ! i)"
  obtain all where c: "collect_results (map ?future order) [] = Inr all"
    and out: "out = sort_results_by_original_order all original"
    using multiple_workers_collected[OF assms(2)] by blast
  from collect_results_Inr[OF c]
  have ok: "\<forall>f\<in>set (map ?future order). \<exists>rs. f = Inr rs"
    and all: "set all = (\<Union>f\<in>set (map ?future order). set (projr f))" by simp_all
  have ord: "set order = {0 ..< length groups}"
    using assms(1) by (simp add: completion_order_def)
  have grp: "article ` set (projr (?future i)) = set (groups ! i)" if "i < length groups" for i
  proof -
    from that ord have "?future i \<in> set (map ?future order)" by simp
    with ok obtain rs where rs: "?future i = Inr rs" by blast
    from parse_worker_group_Inr[OF this] have "map article rs = groups ! i" .
    then have "set (map article rs) = set (groups ! i)" by simp
    with rs show ?thesis by simp
  qed
  have "article ` set all = (\<Union>i\<in>{0 ..< length groups}. article ` set (projr (?future i)))"
    unfolding all using ord by auto
  also have "\<dots> = (\<Union>i\<in>{0 ..< length groups}. set (groups ! i))"
    using grp by simp
  also have "\<dots> = (\<Union>g\<in>(!) groups ` {0 ..< length groups}. set g)"
    by simp
  also have "\<dots> = set (concat groups)"
    by (simp only: nth_image[of "length groups" groups, simplified] set_concat)
  finally have "article ` set all = set (concat groups)" .
  then show ?thesis unfolding out by (simp add: sort_results_articles)
qed

lemma multiple_workers_all:
  assumes "\<And>self a r. fst (parse_single_article s ops h self a) = Inr r \<Longrightarrow> P r"
    and "parse_with_multiple_workers s ops h env order groups original = Inr out"
  shows "\<forall>r\<in>set out. P r"
proof -
  let ?future = "\<lambda>i. parse_worker_group s ops h (env i) (groups ! i)"
  obtain all where c: "collect_results (map ?future order) [] = Inr all"
    and out: "out = sort_results_by_original_order all original"
    using multiple_workers_collected[OF assms(2)] by blast
  from collect_results_Inr[OF c]
  have ok: "\<forall>f\<in>set (map ?future order). \<exists>rs. f = Inr rs"
    and all: "set all = (\<Union>f\<in>set (map ?future order). set (projr f))" by simp_all
  have "P r" if "r \<in> set all" for r
  proof -
    from that all obtain i where i: "i \<in> set order" and r: "r \<in> set (projr (?future i))"
      by auto
    from i ok obtain rs where rs: "?future i = Inr rs" by auto
    from parse_worker_group_all[of s ops h P "env i" "groups ! i" rs] assms(1) rs
    have "\<forall>x\<in>set rs. P x" by blast
    with r rs show ?thesis by simp
  qed
  with sort_results_subset[of all original] show ?thesis unfolding out by blast
qed

lemma multiple_workers_first_failure:
  assumes "completion_order (length groups) order" and "i < length groups"
    and "setup_driver ops (env i) = (Inl e, m')"
  shows "\<exists>e' k. k < length order
           \<and> parse_worker_group s ops h (env (order ! k)) (groups ! (order ! k)) = Inl e'
           \<and> (\<forall>j<k. \<exists>rs. parse_worker_group s ops h (env (order ! j)) (groups ! (order ! j))
                          = Inr rs)
           \<and> parse_with_multiple_workers s ops h env order groups original = Inl e'"
proof -
  let ?future = "\<lambda>i. parse_worker_group s ops h (env i) (groups ! i)"
  obtain e1 where "?future i = Inl e1"
    using parse_worker_group_init_raises[OF assms(3)] by blast
  moreover have "i \<in> set order" using assms(1,2) by (simp add: completion_order_def)
  ultimately have "Inl e1 \<in> set (map ?future order)" by force
  from collect_results_Inl[OF this, of "[]"]
  obtain e' where c: "collect_results (map ?future order) [] = Inl e'" by blast
  from collect_results_first_Inl[OF c]
  obtain k where k: "k < length order" "map ?future order ! k = Inl e'"
    "\<forall>j<k. \<exists>rs. map ?future order ! j = Inr rs" by auto
  from k(1,2) have first: "?future (order ! k) = Inl e'" by simp
  have before: "\<forall>j<k. \<exists>rs. ?future (order ! j) = Inr rs"
  proof (intro allI impI)
    fix j assume j: "j < k"
    with k(3) obtain rs where "map ?future order ! j = Inr rs" by blast
    moreover from j k(1) have "j < length order" by simp
    ultimately show "\<exists>rs. ?future (order ! j) = Inr rs" by simp
  qed
  have "groups \<noteq> []" using assms(2) by auto
  with c have "parse_with_multiple_workers s ops h env order groups original = Inl e'"
    by (simp add: parse_with_multiple_workers_def Let_def)
  with k(1) first before show ?thesis by blast
qed

lemma parse_articles_single:
  assumes "distribute_articles s as = Inr groups" and "length groups = 1"
  shows "OzonParser_parse_articles s ops h env order as
       = parse_with_single_worker s ops h (env 0) as"
  using assms by (simp add: OzonParser_parse_articles_def)

lemma parse_articles_multi:
  assumes "distribute_articles s as = Inr groups" and "length groups \<noteq> 1"
  shows "OzonParser_parse_articles s ops h env order as
       = parse_with_multiple_workers s ops h env order groups as"
  using assms by (simp add: OzonParser_parse_articles_def)

lemma parse_articles_distributed:
  assumes "OzonParser_parse_articles s ops h env order as = Inr out"
  shows "\<exists>groups. distribute_articles s as = Inr groups"
  using assms by (cases "distribute_articles s as") (simp_all add: OzonParser_parse_articles_def)

lemma single_worker_articles:
  assumes "parse_with_single_worker s ops h m as = Inr out"
  shows "map article out = as"
  using assms parse_worker_group_Inr by (simp add: parse_with_single_worker_eq)

lemma filter_own_set: "filter (\<lambda>a. a \<in> set xs) xs = xs"
  by (induction xs) auto

subsection \<open>The order of the output\<close>

text \<open>
  Claim C1. When \<open>parse_articles\<close> returns a list, the identifiers of its results are the
  input list restricted to the identifiers that have a result: every result stands where
  the input order puts its identifier. The order in which the workers complete does not
  show: two runs that differ only in the completion order return the same sequence of
  identifiers.
\<close>

theorem results_in_input_order:
  assumes "OzonParser_parse_articles s ops h env order as = Inr out"
  shows "map article out = filter (\<lambda>a. a \<in> article ` set out) as
     \<and> (\<forall>groups order' out'.
           distribute_articles s as = Inr groups
           \<and> completion_order (length groups) order
           \<and> completion_order (length groups) order'
           \<and> OzonParser_parse_articles s ops h env order' as = Inr out'
           \<longrightarrow> map article out' = map article out)"
proof (intro conjI allI impI)
  obtain groups where g: "distribute_articles s as = Inr groups"
    using parse_articles_distributed[OF assms] by blast
  show "map article out = filter (\<lambda>a. a \<in> article ` set out) as"
  proof (cases "length groups = 1")
    case True
    with g assms have "parse_with_single_worker s ops h (env 0) as = Inr out"
      by (simp add: parse_articles_single)
    then have m: "map article out = as" by (rule single_worker_articles)
    then have "article ` set out = set as" by (metis set_map)
    with m show ?thesis by (simp add: filter_own_set)
  next
    case False
    with g assms have "parse_with_multiple_workers s ops h env order groups as = Inr out"
      by (simp add: parse_articles_multi)
    then show ?thesis by (rule multiple_workers_order)
  qed
next
  fix groups order' out'
  assume a: "distribute_articles s as = Inr groups
           \<and> completion_order (length groups) order
           \<and> completion_order (length groups) order'
           \<and> OzonParser_parse_articles s ops h env order' as = Inr out'"
  show "map article out' = map article out"
  proof (cases "length groups = 1")
    case True
    from a have d: "distribute_articles s as = Inr groups"
      and r': "OzonParser_parse_articles s ops h env order' as = Inr out'" by simp_all
    have "OzonParser_parse_articles s ops h env order as
        = OzonParser_parse_articles s ops h env order' as"
      by (simp only: parse_articles_single[OF d True])
    with assms r' show ?thesis by simp
  next
    case False
    from a have d: "distribute_articles s as = Inr groups"
      and o: "completion_order (length groups) order"
      and o': "completion_order (length groups) order'"
      and r': "OzonParser_parse_articles s ops h env order' as = Inr out'" by simp_all
    have "parse_with_multiple_workers s ops h env order groups as = Inr out"
      using assms by (simp only: parse_articles_multi[OF d False])
    from multiple_workers_scheduled[OF o this]
    have m: "map article out = filter (\<lambda>a. a \<in> set (concat groups)) as" .
    have "parse_with_multiple_workers s ops h env order' groups as = Inr out'"
      using r' by (simp only: parse_articles_multi[OF d False])
    from multiple_workers_scheduled[OF o' this] m show ?thesis by simp
  qed
qed

theorem results_in_input_order_witness:
  "OzonParser_parse_articles (sample_settings 1 2 1) sample_ops sample_helpers all_ready
       [1, 0] [7, 8, 9]
     = Inr [ArticleResult_success 7 \<lparr>prices = 999, title = Some ''Widget''\<rparr>,
            ArticleResult_success 8 \<lparr>prices = 999, title = Some ''Widget''\<rparr>]
   \<and> map article [ArticleResult_success 7 \<lparr>prices = 999::int, title = Some ''Widget''\<rparr>,
                  ArticleResult_success 8 \<lparr>prices = 999, title = Some ''Widget''\<rparr>]
       = filter (\<lambda>a. a \<in> article `
                  set [ArticleResult_success 7 \<lparr>prices = 999::int, title = Some ''Widget''\<rparr>,
                       ArticleResult_success 8 \<lparr>prices = 999, title = Some ''Widget''\<rparr>])
           [7, 8, 9]
   \<and> distribute_articles (sample_settings 1 2 1) [7, 8, 9] = Inr [[7], [8]]
   \<and> completion_order (length [[7], [8::int]]) [1, 0]
   \<and> completion_order (length [[7], [8::int]]) [0, 1]
   \<and> OzonParser_parse_articles (sample_settings 1 2 1) sample_ops sample_helpers all_ready
       [0, 1] [7, 8, 9]
     = Inr [ArticleResult_success 7 \<lparr>prices = 999, title = Some ''Widget''\<rparr>,
            ArticleResult_success 8 \<lparr>prices = 999, title = Some ''Widget''\<rparr>]"
proof -
  let ?out = "[ArticleResult_success 7 \<lparr>prices = 999::int, title = Some ''Widget''\<rparr>,
               ArticleResult_success 8 \<lparr>prices = 999, title = Some ''Widget''\<rparr>]"
  have run: "OzonParser_parse_articles (sample_settings 1 2 1) sample_ops sample_helpers
       all_ready [1, 0] [7, 8, 9] = Inr ?out"
    by code_simp
  have run': "OzonParser_parse_articles (sample_settings 1 2 1) sample_ops sample_helpers
       all_ready [0, 1] [7, 8, 9] = Inr ?out"
    by code_simp
  have d: "distribute_articles (sample_settings 1 2 1) [7, 8, 9] = Inr [[7], [8]]"
    by code_simp
  have o: "completion_order (length [[7], [8::int]]) [1, 0]"
    "completion_order (length [[7], [8::int]]) [0, 1]"
    by code_simp+
  from results_in_input_order[OF run]
  have "map article ?out = filter (\<lambda>a. a \<in> article ` set ?out) [7, 8, 9]" by blast
  with run run' d o show ?thesis by blast
qed

subsection \<open>The invariant of the results\<close>

text \<open>
  Claim C6. Every \<open>ArticleResult\<close> is built by \<open>parse_single_article\<close>, and each one it
  builds has \<open>price_info\<close> set and \<open>error\<close> absent when \<open>success\<close> is true, and \<open>error\<close> set
  and \<open>price_info\<close> absent when \<open>success\<close> is false. So has every result in a list that
  \<open>parse_articles\<close> of the parser returns.
\<close>

theorem article_result_invariant:
  "(\<forall>r. fst (parse_single_article s ops h self a) = Inr r \<longrightarrow> populated_by_success r)
   \<and> (\<forall>out. OzonParser_parse_articles s ops h env order as = Inr out \<longrightarrow>
          (\<forall>r\<in>set out. populated_by_success r))"
proof (intro conjI allI impI)
  show "populated_by_success r" if "fst (parse_single_article s ops h self a) = Inr r" for r
    using that by (rule parse_single_article_populated)
next
  fix out
  assume run: "OzonParser_parse_articles s ops h env order as = Inr out"
  obtain groups where g: "distribute_articles s as = Inr groups"
    using parse_articles_distributed[OF run] by blast
  show "\<forall>r\<in>set out. populated_by_success r"
  proof (cases "length groups = 1")
    case True
    have "parse_worker_group s ops h (env 0) as = Inr out"
      using run by (simp only: parse_articles_single[OF g True] parse_with_single_worker_eq)
    from parse_worker_group_all[of s ops h populated_by_success, OF _ this]
    show ?thesis using parse_single_article_populated by blast
  next
    case False
    have "parse_with_multiple_workers s ops h env order groups as = Inr out"
      using run by (simp only: parse_articles_multi[OF g False])
    from multiple_workers_all[of s ops h populated_by_success, OF _ this]
    show ?thesis using parse_single_article_populated by blast
  qed
qed

theorem article_result_invariant_witness:
  "fst (parse_single_article (sample_settings 10 2 3) sample_ops rejecting_helpers ready_worker 222)
     = Inr (ArticleResult_failure 222 ''Failed to extract price info'')
   \<and> populated_by_success (ArticleResult_failure 222 ''Failed to extract price info'' :: int ArticleResult)
   \<and> OzonParser_parse_articles (sample_settings 10 2 1) sample_ops sample_helpers slow_first
        [0] [7, 7]
     = Inr [ArticleResult_failure 7 ''Failed to navigate to URL'',
            ArticleResult_success 7 \<lparr>prices = 999, title = Some ''Widget''\<rparr>]
   \<and> populated_by_success (ArticleResult_failure 7 ''Failed to navigate to URL'' :: int ArticleResult)
   \<and> populated_by_success (ArticleResult_success 7 \<lparr>prices = 999::int, title = Some ''Widget''\<rparr>)"
proof -
  have one: "fst (parse_single_article (sample_settings 10 2 3) sample_ops rejecting_helpers
      ready_worker 222) = Inr (ArticleResult_failure 222 ''Failed to extract price info'')"
    by code_simp
  have run: "OzonParser_parse_articles (sample_settings 10 2 1) sample_ops sample_helpers slow_first
        [0] [7, 7]
     = Inr [ArticleResult_failure 7 ''Failed to navigate to URL'',
            ArticleResult_success 7 \<lparr>prices = 999, title = Some ''Widget''\<rparr>]"
    by code_simp
  from article_result_invariant[of "sample_settings 10 2 3" sample_ops rejecting_helpers
      ready_worker 222 slow_first "[0]" "[7, 7]"] one
  have a: "populated_by_success
      (ArticleResult_failure 222 ''Failed to extract price info'' :: int ArticleResult)"
    by blast
  from article_result_invariant[of "sample_settings 10 2 1" sample_ops sample_helpers
      ready_worker 7 slow_first "[0]" "[7, 7]"] run
  have b: "populated_by_success (ArticleResult_failure 7 ''Failed to navigate to URL'' :: int ArticleResult)"
    "populated_by_success (ArticleResult_success 7 \<lparr>prices = 999::int, title = Some ''Widget''\<rparr>)"
    by simp_all
  from one run a b show ?thesis by blast
qed

subsection \<open>A worker skips nothing\<close>




subsection \<open>A worker that cannot be initialized\<close>

text \<open>
  Claim C4, as the code has it. In a batch of several groups, when \<open>setup_driver\<close> raises
  for the worker of one group, the run of that worker raises: the exception of
  \<open>setup_driver\<close>, or that of \<open>close\<close> when the \<open>close\<close> in the \<open>finally\<close> clause raises too.
  \<open>future.result()\<close> raises a worker's exception again and nothing catches it:
  \<open>parse_articles\<close> raises the exception of the first worker, in the order of completion,
  whose run raised, and returns no result of any group. The claim that the call completes
  with the other groups' results fails on the batch \<open>[7, 8]\<close> with one identifier per
  worker, where the first group's browser cannot start.
\<close>

theorem failed_initialization_aborts_batch:
  assumes "distribute_articles s as = Inr groups"
    and "length groups \<noteq> 1"
    and "completion_order (length groups) order"
    and "i < length groups"
    and "setup_driver ops (env i) = (Inl e, m')"
  shows "parse_worker_group s ops h (env i) (groups ! i)
           = (case fst (manager_close ops m') of Some e2 \<Rightarrow> Inl e2 | None \<Rightarrow> Inl e)
     \<and> (\<exists>e' k. k < length order
           \<and> parse_worker_group s ops h (env (order ! k)) (groups ! (order ! k)) = Inl e'
           \<and> (\<forall>j<k. \<exists>rs. parse_worker_group s ops h (env (order ! j)) (groups ! (order ! j))
                          = Inr rs)
           \<and> OzonParser_parse_articles s ops h env order as = Inl e')"
proof
  show "parse_worker_group s ops h (env i) (groups ! i)
           = (case fst (manager_close ops m') of Some e2 \<Rightarrow> Inl e2 | None \<Rightarrow> Inl e)"
    using assms(5) by (rule parse_worker_group_init_fails)
  have "\<exists>e' k. k < length order
           \<and> parse_worker_group s ops h (env (order ! k)) (groups ! (order ! k)) = Inl e'
           \<and> (\<forall>j<k. \<exists>rs. parse_worker_group s ops h (env (order ! j)) (groups ! (order ! j))
                          = Inr rs)
           \<and> parse_with_multiple_workers s ops h env order groups as = Inl e'"
    using assms(3,4,5)
    by (rule multiple_workers_first_failure[where env = env and i = i and e = e and m' = m'])
  then show "\<exists>e' k. k < length order
           \<and> parse_worker_group s ops h (env (order ! k)) (groups ! (order ! k)) = Inl e'
           \<and> (\<forall>j<k. \<exists>rs. parse_worker_group s ops h (env (order ! j)) (groups ! (order ! j))
                          = Inr rs)
           \<and> OzonParser_parse_articles s ops h env order as = Inl e'"
    by (simp only: parse_articles_multi[OF assms(1,2)])
qed

theorem failed_initialization_aborts_batch_witness:
  "distribute_articles (sample_settings 1 2 1) [7, 8] = Inr [[7], [8]]
   \<and> length [[7], [8::int]] \<noteq> 1
   \<and> completion_order (length [[7], [8::int]]) [1, 0]
   \<and> 0 < length [[7], [8::int]]
   \<and> setup_driver sample_ops (first_cannot_start 0)
       = (Inl (OtherException ''cannot start browser''), 0)
   \<and> parse_worker_group (sample_settings 1 2 1) sample_ops sample_helpers
         (first_cannot_start 0) ([[7], [8]] ! 0)
       = (case fst (manager_close sample_ops 0) of
            Some e2 \<Rightarrow> Inl e2
          | None \<Rightarrow> (Inl (OtherException ''cannot start browser'') :: exn + int ArticleResult list))
   \<and> (\<exists>e' k. k < length [1, 0::nat]
         \<and> parse_worker_group (sample_settings 1 2 1) sample_ops sample_helpers
               (first_cannot_start ([1, 0] ! k)) ([[7], [8]] ! ([1, 0] ! k))
             = (Inl e' :: exn + int ArticleResult list)
         \<and> OzonParser_parse_articles (sample_settings 1 2 1) sample_ops sample_helpers
              first_cannot_start [1, 0] [7, 8] = (Inl e' :: exn + int ArticleResult list))"
proof -
  have d: "distribute_articles (sample_settings 1 2 1) [7, 8] = Inr [[7], [8]]" by code_simp
  have n: "length [[7], [8::int]] \<noteq> 1" by simp
  have o: "completion_order (length [[7], [8::int]]) [1, 0]" by code_simp
  have i: "0 < length [[7], [8::int]]" by simp
  have f: "setup_driver sample_ops (first_cannot_start 0)
      = (Inl (OtherException ''cannot start browser''), 0)"
    by (simp add: sample_ops_def first_cannot_start_def)
  have t: "parse_worker_group (sample_settings 1 2 1) sample_ops sample_helpers
         (first_cannot_start 0) ([[7], [8]] ! 0)
       = (case fst (manager_close sample_ops 0) of
            Some e2 \<Rightarrow> Inl e2
          | None \<Rightarrow> (Inl (OtherException ''cannot start browser'') :: exn + int ArticleResult list))
     \<and> (\<exists>e' k. k < length [1, 0::nat]
         \<and> parse_worker_group (sample_settings 1 2 1) sample_ops sample_helpers
               (first_cannot_start ([1, 0] ! k)) ([[7], [8]] ! ([1, 0] ! k))
             = (Inl e' :: exn + int ArticleResult list)
         \<and> (\<forall>j<k. \<exists>rs. parse_worker_group (sample_settings 1 2 1) sample_ops sample_helpers
               (first_cannot_start ([1, 0] ! j)) ([[7], [8]] ! ([1, 0] ! j))
             = (Inr rs :: exn + int ArticleResult list))
         \<and> OzonParser_parse_articles (sample_settings 1 2 1) sample_ops sample_helpers
              first_cannot_start [1, 0] [7, 8] = (Inl e' :: exn + int ArticleResult list))"
    using d n o i f
    by (rule failed_initialization_aborts_batch[where env = first_cannot_start and i = 0])
  with d n o i f show ?thesis by blast
qed

theorem failed_initialization_counterexample:
  "distribute_articles (sample_settings 1 2 1) [7, 8] = Inr [[7], [8]]
   \<and> fst (setup_driver sample_ops (first_cannot_start 0)) = Inl (OtherException ''cannot start browser'')
   \<and> parse_worker_group (sample_settings 1 2 1) sample_ops sample_helpers (first_cannot_start 1) [8]
       = Inr [ArticleResult_success 8 \<lparr>prices = 999, title = Some ''Widget''\<rparr>]
   \<and> OzonParser_parse_articles (sample_settings 1 2 1) sample_ops sample_helpers
        first_cannot_start [1, 0] [7, 8]
       = (Inl (OtherException ''cannot start browser'') :: exn + int ArticleResult list)
   \<and> OzonParser_parse_articles (sample_settings 1 2 1) sample_ops sample_helpers
        first_cannot_start [0, 1] [7, 8]
       = (Inl (OtherException ''cannot start browser'') :: exn + int ArticleResult list)"
  by code_simp

subsection \<open>Duplicate identifiers\<close>

text \<open>
  Claim C5, as the code has it. When the batch is split into several groups, the merge
  looks results up by identifier, so two results of the output with the same identifier
  are the same result. A single group is parsed inline without the merge: every
  occurrence of an identifier is fetched on its own, and the results can differ, as on
  \<open>[7, 7]\<close> when the first navigation fails.
\<close>

theorem merged_duplicates_share_result:
  assumes "distribute_articles s as = Inr groups"
    and "length groups \<noteq> 1"
    and "OzonParser_parse_articles s ops h env order as = Inr out"
  shows "\<forall>r1\<in>set out. \<forall>r2\<in>set out. article r1 = article r2 \<longrightarrow> r1 = r2"
proof -
  have "parse_with_multiple_workers s ops h env order groups as = Inr out"
    using assms(3) by (simp only: parse_articles_multi[OF assms(1,2)])
  then obtain all where "out = sort_results_by_original_order all as"
    using multiple_workers_collected by blast
  then show ?thesis using sort_results_functional by blast
qed

theorem merged_duplicates_share_result_witness:
  "distribute_articles (sample_settings 2 2 1) [7, 7, 8] = Inr [[7, 7], [8]]
   \<and> length [[7, 7], [8::int]] \<noteq> 1
   \<and> parse_worker_group (sample_settings 2 2 1) sample_ops sample_helpers (slow_first 0) [7, 7]
       = Inr [ArticleResult_failure 7 ''Failed to navigate to URL'',
              ArticleResult_success 7 \<lparr>prices = 999, title = Some ''Widget''\<rparr>]
   \<and> OzonParser_parse_articles (sample_settings 2 2 1) sample_ops sample_helpers slow_first
        [1, 0] [7, 7, 8]
       = Inr [ArticleResult_success 7 \<lparr>prices = 999, title = Some ''Widget''\<rparr>,
              ArticleResult_success 7 \<lparr>prices = 999, title = Some ''Widget''\<rparr>,
              ArticleResult_failure 8 ''Failed to navigate to URL'']
   \<and> ArticleResult_failure 7 ''Failed to navigate to URL''
       \<notin> set [ArticleResult_success 7 \<lparr>prices = 999::int, title = Some ''Widget''\<rparr>,
              ArticleResult_success 7 \<lparr>prices = 999, title = Some ''Widget''\<rparr>,
              ArticleResult_failure 8 ''Failed to navigate to URL'']"
proof -
  let ?good = "ArticleResult_success 7 \<lparr>prices = 999::int, title = Some ''Widget''\<rparr>"
  let ?bad = "ArticleResult_failure 7 ''Failed to navigate to URL'' :: int ArticleResult"
  let ?out = "[?good, ?good, ArticleResult_failure 8 ''Failed to navigate to URL'']"
  have d: "distribute_articles (sample_settings 2 2 1) [7, 7, 8] = Inr [[7, 7], [8]]"
    by code_simp
  have n: "length [[7, 7], [8::int]] \<noteq> 1" by simp
  have g: "parse_worker_group (sample_settings 2 2 1) sample_ops sample_helpers (slow_first 0)
      [7, 7] = Inr [?bad, ?good]"
    by code_simp
  have run: "OzonParser_parse_articles (sample_settings 2 2 1) sample_ops sample_helpers
      slow_first [1, 0] [7, 7, 8] = Inr ?out"
    by code_simp
  from merged_duplicates_share_result[OF d n run]
  have same: "\<forall>r1\<in>set ?out. \<forall>r2\<in>set ?out. article r1 = article r2 \<longrightarrow> r1 = r2" .
  have "?good \<in> set ?out" by simp
  moreover have "article ?bad = article ?good"
    by (simp add: ArticleResult_failure_def ArticleResult_success_def)
  moreover have "?bad \<noteq> ?good"
    by (simp add: ArticleResult_failure_def ArticleResult_success_def)
  ultimately have "?bad \<notin> set ?out" using same by blast
  with d n g run show ?thesis by blast
qed

theorem single_worker_duplicates_counterexample:
  "distribute_articles (sample_settings 10 2 1) [7, 7] = Inr [[7, 7]]
   \<and> OzonParser_parse_articles (sample_settings 10 2 1) sample_ops sample_helpers slow_first
        [0] [7, 7]
       = Inr [ArticleResult_failure 7 ''Failed to navigate to URL'',
              ArticleResult_success 7 \<lparr>prices = 999, title = Some ''Widget''\<rparr>]
   \<and> (ArticleResult_failure 7 ''Failed to navigate to URL'' :: int ArticleResult)
       \<noteq> ArticleResult_success 7 \<lparr>prices = 999, title = Some ''Widget''\<rparr>"
  by code_simp

subsection \<open>Distribution and the capacity ceiling\<close>

lemma distribute_articles_small:
  assumes "int (length as) \<le> MAX_ARTICLES_PER_WORKER s"
  shows "distribute_articles s as = Inr [as]"
  using assms by (simp add: distribute_articles_def)

lemma concat_distributed:
  assumes "1 \<le> MAX_ARTICLES_PER_WORKER s"
    and "MAX_ARTICLES_PER_WORKER s < int (length as)"
  shows "concat (map (\<lambda>k. take (nat (MAX_ARTICLES_PER_WORKER s))
                              (drop (k * nat (MAX_ARTICLES_PER_WORKER s)) as))
                [0 ..< min (nat ((int (length as) + MAX_ARTICLES_PER_WORKER s - 1)
                                   div MAX_ARTICLES_PER_WORKER s))
                           (max 1 (nat (MAX_WORKERS s)))])
       = take (max 1 (nat (MAX_WORKERS s)) * nat (MAX_ARTICLES_PER_WORKER s)) as"
proof -
  let ?c = "MAX_ARTICLES_PER_WORKER s"
  let ?n = "nat ((int (length as) + ?c - 1) div ?c)"
  have "int (length as) \<le> ((int (length as) + ?c - 1) div ?c) * ?c"
    using assms(1) by (intro ceil_div_covers) simp_all
  also have "\<dots> = int (?n * nat ?c)"
    using assms by (simp add: pos_imp_zdiv_nonneg_iff)
  finally have "length as \<le> ?n * nat ?c" by linarith
  then show ?thesis
    by (simp only: concat_chunks take_min_chunks)
qed

text \<open>
  Claim C2, as the code has it. A list no longer than \<open>MAX_ARTICLES_PER_WORKER\<close> makes one
  group, the list itself, and is parsed inline by one worker. A longer list (the capacity
  being at least 1) is cut into consecutive chunks of \<open>MAX_ARTICLES_PER_WORKER\<close>
  identifiers (the last one may be shorter), in order, until the list ends or
  \<open>max(1, MAX_WORKERS)\<close> chunks exist: the first chunk is always made. The groups
  together are the first \<open>MAX_ARTICLES_PER_WORKER * max(1, MAX_WORKERS)\<close> positions of the
  list, and no later position is in a group. With \<open>MAX_WORKERS\<close> at least 2 the output,
  when the batch returns one, has a result for exactly the positions whose identifier
  occurs among the first \<open>MAX_ARTICLES_PER_WORKER * MAX_WORKERS\<close> positions: an identifier
  that occurs only later is absent, one that occurs there as well is present at each of
  its positions. The claim that every identifier at a later index is absent fails for
  such a repeated identifier, and with \<open>MAX_WORKERS = 1\<close>, where the one group makes the
  parser parse the whole list inline.
\<close>

theorem distribution_and_ceiling:
  "(int (length as) \<le> MAX_ARTICLES_PER_WORKER s \<longrightarrow>
      distribute_articles s as = Inr [as]
      \<and> OzonParser_parse_articles s ops h env order as
          = parse_with_single_worker s ops h (env 0) as)
   \<and> (1 \<le> MAX_ARTICLES_PER_WORKER s \<and> MAX_ARTICLES_PER_WORKER s < int (length as) \<longrightarrow>
        (\<exists>groups. distribute_articles s as = Inr groups
           \<and> groups = map (\<lambda>k. take (nat (MAX_ARTICLES_PER_WORKER s))
                                  (drop (k * nat (MAX_ARTICLES_PER_WORKER s)) as))
                        [0 ..< min (nat ((int (length as) + MAX_ARTICLES_PER_WORKER s - 1)
                                           div MAX_ARTICLES_PER_WORKER s))
                                   (max 1 (nat (MAX_WORKERS s)))]
           \<and> concat groups
               = take (max 1 (nat (MAX_WORKERS s)) * nat (MAX_ARTICLES_PER_WORKER s)) as
           \<and> (2 \<le> MAX_WORKERS s \<and> completion_order (length groups) order \<longrightarrow>
                (\<forall>out. OzonParser_parse_articles s ops h env order as = Inr out \<longrightarrow>
                   map article out
                     = filter (\<lambda>a. a \<in> set (take (nat (MAX_WORKERS s)
                                                    * nat (MAX_ARTICLES_PER_WORKER s)) as)) as))))"
proof (intro conjI impI)
  assume small: "int (length as) \<le> MAX_ARTICLES_PER_WORKER s"
  show d: "distribute_articles s as = Inr [as]"
    using small by (rule distribute_articles_small)
  show "OzonParser_parse_articles s ops h env order as
          = parse_with_single_worker s ops h (env 0) as"
    by (rule parse_articles_single[OF d]) simp
next
  let ?c = "MAX_ARTICLES_PER_WORKER s"
  let ?n = "nat ((int (length as) + ?c - 1) div ?c)"
  let ?groups = "map (\<lambda>k. take (nat ?c) (drop (k * nat ?c) as))
                   [0 ..< min ?n (max 1 (nat (MAX_WORKERS s)))]"
  assume "1 \<le> ?c \<and> ?c < int (length as)"
  then have c1: "1 \<le> ?c" and big: "?c < int (length as)" by simp_all
  have d: "distribute_articles s as = Inr ?groups"
    by (rule distribute_articles_chunks[OF c1 big])
  have cc: "concat ?groups = take (max 1 (nat (MAX_WORKERS s)) * nat ?c) as"
    by (rule concat_distributed[OF c1 big])
  have multi: "map article out
        = filter (\<lambda>a. a \<in> set (take (nat (MAX_WORKERS s) * nat ?c) as)) as"
    if w: "2 \<le> MAX_WORKERS s" and o: "completion_order (length ?groups) order"
      and run: "OzonParser_parse_articles s ops h env order as = Inr out" for out
  proof -
    have "2 \<le> ?n" by (rule ceil_div_ge2[OF c1 big])
    moreover have "2 \<le> max 1 (nat (MAX_WORKERS s))" using w by simp
    ultimately have ne: "length ?groups \<noteq> 1" by simp
    have eq: "OzonParser_parse_articles s ops h env order as
        = parse_with_multiple_workers s ops h env order ?groups as"
      by (rule parse_articles_multi[OF d ne])
    have "parse_with_multiple_workers s ops h env order ?groups as = Inr out"
      unfolding eq[symmetric] by (rule run)
    from multiple_workers_scheduled[OF o this]
    have m: "map article out = filter (\<lambda>a. a \<in> set (concat ?groups)) as" .
    have mx: "max 1 (nat (MAX_WORKERS s)) = nat (MAX_WORKERS s)" using w by simp
    have cc': "concat ?groups = take (nat (MAX_WORKERS s) * nat ?c) as"
      by (rule trans[OF cc]) (simp only: mx)
    show ?thesis using m by (simp only: cc')
  qed
  show "\<exists>groups. distribute_articles s as = Inr groups
           \<and> groups = ?groups
           \<and> concat groups = take (max 1 (nat (MAX_WORKERS s)) * nat ?c) as
           \<and> (2 \<le> MAX_WORKERS s \<and> completion_order (length groups) order \<longrightarrow>
                (\<forall>out. OzonParser_parse_articles s ops h env order as = Inr out \<longrightarrow>
                   map article out
                     = filter (\<lambda>a. a \<in> set (take (nat (MAX_WORKERS s) * nat ?c) as)) as))"
    using d cc multi by blast
qed


theorem distribution_and_ceiling_witness:
  "int (length [1, 2::int]) \<le> MAX_ARTICLES_PER_WORKER (sample_settings 2 2 1)
   \<and> distribute_articles (sample_settings 2 2 1) [1, 2] = Inr [[1, 2]]
   \<and> OzonParser_parse_articles (sample_settings 2 2 1) sample_ops sample_helpers all_ready
         [0] [1, 2]
       = parse_with_single_worker (sample_settings 2 2 1) sample_ops sample_helpers
           (all_ready 0) [1, 2]
   \<and> 1 \<le> MAX_ARTICLES_PER_WORKER (sample_settings 2 2 1)
   \<and> MAX_ARTICLES_PER_WORKER (sample_settings 2 2 1) < int (length [1, 2, 3, 4, 5::int])
   \<and> distribute_articles (sample_settings 2 2 1) [1, 2, 3, 4, 5] = Inr [[1, 2], [3, 4]]
   \<and> 2 \<le> MAX_WORKERS (sample_settings 2 2 1)
   \<and> completion_order (length [[1, 2], [3, 4::int]]) [1, 0]
   \<and> OzonParser_parse_articles (sample_settings 2 2 1) sample_ops sample_helpers all_ready
         [1, 0] [1, 2, 3, 4, 5]
       = Inr [ArticleResult_success 1 \<lparr>prices = 999, title = Some ''Widget''\<rparr>,
              ArticleResult_success 2 \<lparr>prices = 999, title = Some ''Widget''\<rparr>,
              ArticleResult_success 3 \<lparr>prices = 999, title = Some ''Widget''\<rparr>,
              ArticleResult_success 4 \<lparr>prices = 999, title = Some ''Widget''\<rparr>]
   \<and> map article
         [ArticleResult_success 1 \<lparr>prices = 999::int, title = Some ''Widget''\<rparr>,
          ArticleResult_success 2 \<lparr>prices = 999, title = Some ''Widget''\<rparr>,
          ArticleResult_success 3 \<lparr>prices = 999, title = Some ''Widget''\<rparr>,
          ArticleResult_success 4 \<lparr>prices = 999, title = Some ''Widget''\<rparr>]
       = filter (\<lambda>a. a \<in> set (take (nat (MAX_WORKERS (sample_settings 2 2 1))
                                      * nat (MAX_ARTICLES_PER_WORKER (sample_settings 2 2 1)))
                                   [1, 2, 3, 4, 5])) [1, 2, 3, 4, 5]"
proof -
  let ?s = "sample_settings 2 2 1"
  let ?out = "[ArticleResult_success 1 \<lparr>prices = 999::int, title = Some ''Widget''\<rparr>,
          ArticleResult_success 2 \<lparr>prices = 999, title = Some ''Widget''\<rparr>,
          ArticleResult_success 3 \<lparr>prices = 999, title = Some ''Widget''\<rparr>,
          ArticleResult_success 4 \<lparr>prices = 999, title = Some ''Widget''\<rparr>]"
  have small: "int (length [1, 2::int]) \<le> MAX_ARTICLES_PER_WORKER ?s"
    by (simp add: sample_settings_def)
  have c1: "1 \<le> MAX_ARTICLES_PER_WORKER ?s"
    and big: "MAX_ARTICLES_PER_WORKER ?s < int (length [1, 2, 3, 4, 5::int])"
    and w: "2 \<le> MAX_WORKERS ?s"
    by (simp_all add: sample_settings_def)
  have d: "distribute_articles ?s [1, 2, 3, 4, 5] = Inr [[1, 2], [3, 4]]" by code_simp
  have o: "completion_order (length [[1, 2], [3, 4::int]]) [1, 0]" by code_simp
  have run: "OzonParser_parse_articles ?s sample_ops sample_helpers all_ready [1, 0]
      [1, 2, 3, 4, 5] = Inr ?out"
    by code_simp
  from distribution_and_ceiling[of "[1, 2]" ?s sample_ops sample_helpers all_ready "[0]"] small
  have one: "distribute_articles ?s [1, 2] = Inr [[1, 2]]"
    "OzonParser_parse_articles ?s sample_ops sample_helpers all_ready [0] [1, 2]
       = parse_with_single_worker ?s sample_ops sample_helpers (all_ready 0) [1, 2]"
    by blast+
  from distribution_and_ceiling[of "[1, 2, 3, 4, 5]" ?s sample_ops sample_helpers all_ready
      "[1, 0]"] c1 big
  obtain groups where g: "distribute_articles ?s [1, 2, 3, 4, 5] = Inr groups"
    and imp: "2 \<le> MAX_WORKERS ?s \<and> completion_order (length groups) [1, 0] \<longrightarrow>
        (\<forall>out. OzonParser_parse_articles ?s sample_ops sample_helpers all_ready [1, 0]
                  [1, 2, 3, 4, 5] = Inr out \<longrightarrow>
           map article out
             = filter (\<lambda>a. a \<in> set (take (nat (MAX_WORKERS ?s) * nat (MAX_ARTICLES_PER_WORKER ?s))
                                       [1, 2, 3, 4, 5])) [1, 2, 3, 4, 5])"
    by blast
  from g d have "groups = [[1, 2], [3, 4]]" by simp
  with imp w o run
  have "map article ?out
       = filter (\<lambda>a. a \<in> set (take (nat (MAX_WORKERS ?s) * nat (MAX_ARTICLES_PER_WORKER ?s))
                                   [1, 2, 3, 4, 5])) [1, 2, 3, 4, 5]"
    by blast
  with small one c1 big d w o run show ?thesis by blast
qed

theorem ceiling_counterexample:
  "distribute_articles (sample_settings 1 1 1) [1, 2] = Inr [[1]]
   \<and> OzonParser_parse_articles (sample_settings 1 1 1) sample_ops sample_helpers all_ready
         [0] [1, 2]
       = Inr [ArticleResult_success 1 \<lparr>prices = 999, title = Some ''Widget''\<rparr>,
              ArticleResult_success 2 \<lparr>prices = 999, title = Some ''Widget''\<rparr>]
   \<and> distribute_articles (sample_settings 1 2 1) [7, 8, 7] = Inr [[7], [8]]
   \<and> OzonParser_parse_articles (sample_settings 1 2 1) sample_ops sample_helpers all_ready
         [1, 0] [7, 8, 7]
       = Inr [ArticleResult_success 7 \<lparr>prices = 999, title = Some ''Widget''\<rparr>,
              ArticleResult_success 8 \<lparr>prices = 999, title = Some ''Widget''\<rparr>,
              ArticleResult_success 7 \<lparr>prices = 999, title = Some ''Widget''\<rparr>]"
  by code_simp

end
